theory Spec2Isabelle
  imports Main "HOL-Library.Multiset"
begin

section \<open>The program course nudge email command\<close>

text \<open>
  A shallow embedding of the management command
  \<^verbatim>\<open>send_program_course_nudge_email.py\<close>. The dictionaries the command reads are
  records with one field per key the command subscripts; a value that may be \<^verbatim>\<open>None\<close>
  is an option; a Python exception is a value of \<open>py_error\<close>.
\<close>

subsection \<open>Data\<close>

datatype py_error = KeyError | TypeError | ValueError | AttributeError

text \<open>A course run of the catalog: the keys \<^verbatim>\<open>valid_course_run\<close> and
  \<^verbatim>\<open>emit_event\<close> read. The image is a dictionary (read with \<^verbatim>\<open>.get('src')\<close>) or
  \<^verbatim>\<open>None\<close>; the marketing URL is a string or \<^verbatim>\<open>None\<close>.\<close>

record course_run =
  run_key :: string
  is_enrollable :: bool
  is_marketable :: bool
  marketing_url :: "string option"
  run_image :: "(string \<times> string) list option"
  status :: string
  run_title :: string
  short_description :: string

record course =
  course_key :: string
  course_runs :: "course_run list"

text \<open>A program of the catalog. The key \<^verbatim>\<open>sort_revenue_order\<close> is absent (\<open>None\<close>)
  until \<^verbatim>\<open>sort_programs\<close> stores it.\<close>

record program =
  uuid :: string
  ptype :: string
  title :: string
  courses :: "course list"
  sort_revenue_order :: "int option"

text \<open>One entry of \<^verbatim>\<open>ProgramProgressMeter.progress(..., count_only=False)\<close>: the
  program's uuid and the user's partition of its courses.\<close>

record program_progress =
  progress_uuid :: string
  completed :: "course list"
  in_progress :: "course list"
  not_started :: "course list"

record user =
  user_id :: int
  username :: string

text \<open>The values the tuple returned by \<^verbatim>\<open>get_course_run_to_suggest\<close> holds. A Python
  tuple is the list of its components, so that its length is part of the value.\<close>

datatype pyval =
  PNone
  | PProgress program_progress
  | PCourseRun course_run
  | PCourse course

subsection \<open>Truthiness\<close>

text \<open>Python's truth value of an optional string and of an optional dictionary:
  \<^verbatim>\<open>None\<close> and the empty value are false.\<close>

fun truthy_str :: "string option \<Rightarrow> bool" where
  "truthy_str None = False"
| "truthy_str (Some s) = (s \<noteq> [])"

fun truthy_dict :: "('k \<times> 'v) list option \<Rightarrow> bool" where
  "truthy_dict None = False"
| "truthy_dict (Some d) = (d \<noteq> [])"

fun truthy :: "pyval \<Rightarrow> bool" where
  "truthy PNone = False"
| "truthy _ = True"

subsection \<open>Selecting the course run to suggest\<close>

text \<open>Modelled from the spec: the constant \<^verbatim>\<open>COURSE_PUBLISHED\<close> is imported from
  \<^verbatim>\<open>openedx.core.constants\<close>, which is not among the sources; the specification names
  the status "published".\<close>

definition COURSE_PUBLISHED :: string where
  "COURSE_PUBLISHED = ''published''"

definition valid_course_run :: "course_run \<Rightarrow> bool" where
  "valid_course_run r \<longleftrightarrow>
     is_enrollable r
     \<and> is_marketable r
     \<and> truthy_str (marketing_url r)
     \<and> truthy_dict (run_image r)
     \<and> status r = COURSE_PUBLISHED"

text \<open>The three nested loops of \<^verbatim>\<open>get_course_run_to_suggest\<close>, innermost first. Each
  returns \<open>Some\<close> at the \<^verbatim>\<open>return\<close> inside the loop and \<open>None\<close> when the loop runs
  to its end.\<close>

fun course_runs_loop :: "string \<Rightarrow> course_run list \<Rightarrow> course_run option" where
  "course_runs_loop cid [] = None"
| "course_runs_loop cid (r # rs) =
     (if valid_course_run r \<and> run_key r \<noteq> cid then Some r
      else course_runs_loop cid rs)"

fun not_started_loop :: "string \<Rightarrow> course list \<Rightarrow> (course_run \<times> course) option" where
  "not_started_loop cid [] = None"
| "not_started_loop cid (c # cs) =
     (case course_runs_loop cid (course_runs c) of
        Some r \<Rightarrow> Some (r, c)
      | None \<Rightarrow> not_started_loop cid cs)"

fun programs_loop ::
  "string \<Rightarrow> program_progress list \<Rightarrow> (program_progress \<times> course_run \<times> course) option" where
  "programs_loop cid [] = None"
| "programs_loop cid (p # ps) =
     (case not_started_loop cid (not_started p) of
        Some (r, c) \<Rightarrow> Some (p, r, c)
      | None \<Rightarrow> programs_loop cid ps)"

text \<open>The function returns the 3-tuple \<^verbatim>\<open>program, course_run, not_started_course\<close>
  from inside the loops and the 2-tuple \<^verbatim>\<open>None, None\<close> after them.\<close>

definition get_course_run_to_suggest :: "program_progress list \<Rightarrow> string \<Rightarrow> pyval list" where
  "get_course_run_to_suggest programs_progress completed_course_id =
     (case programs_loop completed_course_id programs_progress of
        Some (p, r, c) \<Rightarrow> [PProgress p, PCourseRun r, PCourse c]
      | None \<Rightarrow> [PNone, PNone])"

subsection \<open>Ranking the programs\<close>

text \<open>The dictionary \<^verbatim>\<open>sort_revenue_order\<close> of \<^verbatim>\<open>sort_programs\<close> and its
  \<^verbatim>\<open>.get(program['type'], 7)\<close>.\<close>

definition sort_revenue_order_table :: "(string \<times> int) list" where
  "sort_revenue_order_table =
     [(''MicroMasters'', 1),
      (''Professional Program'', 2),
      (''Professional Certificate'', 3),
      (''XSeries'', 4),
      (''Masters'', 5),
      (''MicroBachelors'', 6)]"

definition revenue_rank :: "string \<Rightarrow> int" where
  "revenue_rank t = (case map_of sort_revenue_order_table t of Some k \<Rightarrow> k | None \<Rightarrow> 7)"

text \<open>The body of the \<^verbatim>\<open>for\<close> loop: the assignment to
  \<^verbatim>\<open>program['sort_revenue_order']\<close>.\<close>

definition set_revenue_order :: "program \<Rightarrow> program" where
  "set_revenue_order p = p\<lparr>sort_revenue_order := Some (revenue_rank (ptype p))\<rparr>"

text \<open>\<^verbatim>\<open>itemgetter('sort_revenue_order')\<close> raises \<^verbatim>\<open>KeyError\<close> on a dictionary without
  the key.\<close>

definition itemgetter_sort_revenue_order :: "program \<Rightarrow> py_error + int" where
  "itemgetter_sort_revenue_order p =
     (case sort_revenue_order p of None \<Rightarrow> Inl KeyError | Some k \<Rightarrow> Inr k)"

text \<open>\<^verbatim>\<open>sorted(programs, key=...)\<close>: the key of every element is computed first, in
  order, then the elements are sorted by it; the sort is stable, as insertion by
  \<open>sort_key\<close> is.\<close>

fun decorate :: "program list \<Rightarrow> py_error + (int \<times> program) list" where
  "decorate [] = Inr []"
| "decorate (p # ps) =
     (case itemgetter_sort_revenue_order p of
        Inl e \<Rightarrow> Inl e
      | Inr k \<Rightarrow> (case decorate ps of Inl e \<Rightarrow> Inl e | Inr kps \<Rightarrow> Inr ((k, p) # kps)))"

definition sorted_by_revenue_order :: "program list \<Rightarrow> py_error + program list" where
  "sorted_by_revenue_order ps =
     (case decorate ps of Inl e \<Rightarrow> Inl e | Inr kps \<Rightarrow> Inr (map snd (sort_key fst kps)))"

text \<open>\<^verbatim>\<open>sort_programs\<close> assigns into the dictionaries of the list it is given and returns
  a new list. The model returns both: the argument as the call leaves it, and the result.\<close>

definition sort_programs :: "program list \<Rightarrow> program list \<times> (py_error + program list)" where
  "sort_programs programs =
     (let programs' = map set_revenue_order programs
      in (programs', sorted_by_revenue_order programs'))"

subsection \<open>Looking up the program and the completed course run\<close>

text \<open>Both loops return from inside; a Python function that reaches its end returns
  \<^verbatim>\<open>None\<close>.\<close>

fun find_course_run :: "string \<Rightarrow> course_run list \<Rightarrow> course_run option" where
  "find_course_run k [] = None"
| "find_course_run k (r # rs) = (if run_key r = k then Some r else find_course_run k rs)"

fun get_course_run_courses :: "course list \<Rightarrow> string \<Rightarrow> course_run option" where
  "get_course_run_courses [] k = None"
| "get_course_run_courses (c # cs) k =
     (case find_course_run k (course_runs c) of
        Some r \<Rightarrow> Some r
      | None \<Rightarrow> get_course_run_courses cs k)"

definition get_course_run :: "program \<Rightarrow> string \<Rightarrow> course_run option" where
  "get_course_run p course_run_id = get_course_run_courses (courses p) course_run_id"

fun get_program :: "program list \<Rightarrow> program_progress \<Rightarrow> program option" where
  "get_program [] pp = None"
| "get_program (p # ps) pp = (if uuid p = progress_uuid pp then Some p else get_program ps pp)"

subsection \<open>The library function \<^verbatim>\<open>urljoin\<close>\<close>

text \<open>
  \<^verbatim>\<open>emit_event\<close> builds the recommended URL with \<^verbatim>\<open>urllib.parse.urljoin\<close> of the
  Python standard library. The command takes it as one of its collaborators (the field
  \<open>env_urljoin\<close> below). The definitions of this subsection follow the library's
  \<^verbatim>\<open>urljoin\<close>, \<^verbatim>\<open>urlparse\<close>, \<^verbatim>\<open>urlsplit\<close>, \<^verbatim>\<open>urlunparse\<close> and
  \<^verbatim>\<open>urlunsplit\<close> (CPython 3.11) on ASCII text, so that the command can be evaluated
  on concrete URLs. The library's validation of a bracketed (IPv6) host and of a
  non-ASCII host is left out; a host with one bracket only raises \<^verbatim>\<open>ValueError\<close>, as
  in the library.
\<close>

definition uses_relative :: "string list" where
  "uses_relative = ['''', ''ftp'', ''http'', ''gopher'', ''nntp'', ''imap'',
     ''wais'', ''file'', ''https'', ''shttp'', ''mms'',
     ''prospero'', ''rtsp'', ''rtsps'', ''rtspu'', ''sftp'',
     ''svn'', ''svn+ssh'', ''ws'', ''wss'']"

definition uses_netloc :: "string list" where
  "uses_netloc = ['''', ''ftp'', ''http'', ''gopher'', ''nntp'', ''telnet'',
     ''imap'', ''wais'', ''file'', ''mms'', ''https'', ''shttp'',
     ''snews'', ''prospero'', ''rtsp'', ''rtsps'', ''rtspu'', ''rsync'',
     ''svn'', ''svn+ssh'', ''sftp'', ''nfs'', ''git'', ''git+ssh'',
     ''ws'', ''wss'']"

definition uses_params :: "string list" where
  "uses_params = ['''', ''ftp'', ''hdl'', ''prospero'', ''http'', ''imap'',
     ''https'', ''shttp'', ''rtsp'', ''rtsps'', ''rtspu'', ''sip'',
     ''sips'', ''mms'', ''sftp'', ''tel'']"

definition lower_letters :: string where
  "lower_letters = ''abcdefghijklmnopqrstuvwxyz''"

definition upper_letters :: string where
  "upper_letters = ''ABCDEFGHIJKLMNOPQRSTUVWXYZ''"

definition scheme_chars :: string where
  "scheme_chars = lower_letters @ upper_letters @ ''0123456789'' @ ''+-.''"

definition lower_char :: "char \<Rightarrow> char" where
  "lower_char c = (case map_of (zip upper_letters lower_letters) c of Some l \<Rightarrow> l | None \<Rightarrow> c)"

definition c0_control_or_space :: "char \<Rightarrow> bool" where
  "c0_control_or_space c \<longleftrightarrow> (of_char c :: nat) \<le> 32"

definition unsafe_url_byte :: "char \<Rightarrow> bool" where
  "unsafe_url_byte c \<longleftrightarrow> (of_char c :: nat) \<in> {9, 13, 10}"

text \<open>\<^verbatim>\<open>s.partition(c)\<close> without the separator: the text before the first \<open>c\<close> and the
  text after it.\<close>

definition before_first :: "char \<Rightarrow> string \<Rightarrow> string" where
  "before_first c s = takeWhile (\<lambda>x. x \<noteq> c) s"

definition after_first :: "char \<Rightarrow> string \<Rightarrow> string" where
  "after_first c s = drop 1 (dropWhile (\<lambda>x. x \<noteq> c) s)"

fun split_on :: "char \<Rightarrow> string \<Rightarrow> string list" where
  "split_on c [] = [[]]"
| "split_on c (x # xs) =
     (if x = c then [] # split_on c xs
      else (case split_on c xs of [] \<Rightarrow> [[x]] | s # ss \<Rightarrow> (x # s) # ss))"

fun join_with :: "char \<Rightarrow> string list \<Rightarrow> string" where
  "join_with c [] = []"
| "join_with c [s] = s"
| "join_with c (s # ss) = s @ c # join_with c ss"

definition urlsplit :: "string \<Rightarrow> string \<Rightarrow> py_error + (string \<times> string \<times> string \<times> string \<times> string)" where
  "urlsplit url0 scheme0 =
     (let url1 = filter (\<lambda>c. \<not> unsafe_url_byte c) (dropWhile c0_control_or_space url0);
          scheme1 = filter (\<lambda>c. \<not> unsafe_url_byte c)
                      (rev (dropWhile c0_control_or_space (rev (dropWhile c0_control_or_space scheme0))));
          pre = before_first CHR '':'' url1;
          has_scheme = (CHR '':'' \<in> set url1
                        \<and> (case pre of [] \<Rightarrow> False | c # _ \<Rightarrow> c \<in> set (lower_letters @ upper_letters))
                        \<and> (\<forall>c \<in> set pre. c \<in> set scheme_chars));
          scheme = (if has_scheme then map lower_char pre else scheme1);
          url2 = (if has_scheme then after_first CHR '':'' url1 else url1);
          has_netloc = (take 2 url2 = ''//'');
          is_delim = (\<lambda>c. c \<in> set ''/?#'');
          netloc = (if has_netloc then takeWhile (\<lambda>c. \<not> is_delim c) (drop 2 url2) else []);
          url3 = (if has_netloc then dropWhile (\<lambda>c. \<not> is_delim c) (drop 2 url2) else url2);
          fragment = (if CHR ''#'' \<in> set url3 then after_first CHR ''#'' url3 else []);
          url4 = (if CHR ''#'' \<in> set url3 then before_first CHR ''#'' url3 else url3);
          query = (if CHR ''?'' \<in> set url4 then after_first CHR ''?'' url4 else []);
          url5 = (if CHR ''?'' \<in> set url4 then before_first CHR ''?'' url4 else url4)
      in if (CHR ''['' \<in> set netloc \<and> CHR '']'' \<notin> set netloc)
            \<or> (CHR '']'' \<in> set netloc \<and> CHR ''['' \<notin> set netloc)
         then Inl ValueError
         else Inr (scheme, netloc, url5, query, fragment))"

definition splitparams :: "string \<Rightarrow> string \<times> string" where
  "splitparams url =
     (let last_seg = rev (takeWhile (\<lambda>c. c \<noteq> CHR ''/'') (rev url));
          front = take (length url - length last_seg) url
      in if CHR '';'' \<in> set last_seg
         then (front @ before_first CHR '';'' last_seg, after_first CHR '';'' last_seg)
         else (url, []))"

definition urlparse ::
  "string \<Rightarrow> string \<Rightarrow> py_error + (string \<times> string \<times> string \<times> string \<times> string \<times> string)" where
  "urlparse url scheme0 =
     (case urlsplit url scheme0 of
        Inl e \<Rightarrow> Inl e
      | Inr (scheme, netloc, path, query, fragment) \<Rightarrow>
          (if scheme \<in> set uses_params \<and> CHR '';'' \<in> set path
           then (case splitparams path of (path', params) \<Rightarrow>
                   Inr (scheme, netloc, path', params, query, fragment))
           else Inr (scheme, netloc, path, [], query, fragment)))"

definition urlunsplit :: "string \<Rightarrow> string \<Rightarrow> string \<Rightarrow> string \<Rightarrow> string \<Rightarrow> string" where
  "urlunsplit scheme netloc url0 query fragment =
     (let url1 = (if netloc \<noteq> [] \<or> (scheme \<noteq> [] \<and> scheme \<in> set uses_netloc) \<or> take 2 url0 = ''//''
                  then ''//'' @ netloc @ (if url0 \<noteq> [] \<and> take 1 url0 \<noteq> ''/'' then CHR ''/'' # url0 else url0)
                  else url0);
          url2 = (if scheme \<noteq> [] then scheme @ '':'' @ url1 else url1);
          url3 = (if query \<noteq> [] then url2 @ ''?'' @ query else url2)
      in if fragment \<noteq> [] then url3 @ ''#'' @ fragment else url3)"

definition urlunparse :: "string \<Rightarrow> string \<Rightarrow> string \<Rightarrow> string \<Rightarrow> string \<Rightarrow> string \<Rightarrow> string" where
  "urlunparse scheme netloc url params query fragment =
     urlunsplit scheme netloc (if params \<noteq> [] then url @ '';'' @ params else url) query fragment"

fun resolve_segments :: "string list \<Rightarrow> string list \<Rightarrow> string list" where
  "resolve_segments resolved [] = resolved"
| "resolve_segments resolved (seg # segs) =
     (if seg = ''..'' then resolve_segments (butlast resolved) segs
      else if seg = ''.'' then resolve_segments resolved segs
      else resolve_segments (resolved @ [seg]) segs)"

definition drop_empty_inner :: "string list \<Rightarrow> string list" where
  "drop_empty_inner segments =
     (case segments of
        [] \<Rightarrow> []
      | [s] \<Rightarrow> [s]
      | s # rest \<Rightarrow> s # filter (\<lambda>t. t \<noteq> []) (butlast rest) @ [last rest])"

definition urljoin_str :: "string \<Rightarrow> string \<Rightarrow> py_error + string" where
  "urljoin_str base url =
     (case urlparse base [] of
        Inl e \<Rightarrow> Inl e
      | Inr (bscheme, bnetloc, bpath, bparams, bquery, bfragment) \<Rightarrow>
     (case urlparse url bscheme of
        Inl e \<Rightarrow> Inl e
      | Inr (scheme, netloc0, path, params, query, fragment) \<Rightarrow>
          if scheme \<noteq> bscheme \<or> scheme \<notin> set uses_relative then Inr url
          else if scheme \<in> set uses_netloc \<and> netloc0 \<noteq> []
          then Inr (urlunparse scheme netloc0 path params query fragment)
          else
            (let netloc = (if scheme \<in> set uses_netloc then bnetloc else netloc0)
             in if path = [] \<and> params = []
                then Inr (urlunparse scheme netloc bpath bparams
                            (if query = [] then bquery else query) fragment)
                else
                  (let base_parts0 = split_on CHR ''/'' bpath;
                       base_parts = (if last base_parts0 \<noteq> [] then butlast base_parts0 else base_parts0);
                       segments = (if take 1 path = ''/'' then split_on CHR ''/'' path
                                   else drop_empty_inner (base_parts @ split_on CHR ''/'' path));
                       resolved0 = resolve_segments [] segments;
                       resolved_path = (if last segments \<in> {''.'', ''..''} then resolved0 @ [[]] else resolved0);
                       joined = join_with CHR ''/'' resolved_path
                   in Inr (urlunparse scheme netloc (if joined = [] then ''/'' else joined)
                             params query fragment)))))"

definition urljoin :: "string option \<Rightarrow> string option \<Rightarrow> py_error + string option" where
  "urljoin base url =
     (case base of
        None \<Rightarrow> Inr url
      | Some b \<Rightarrow>
          if b = [] then Inr url
          else (case url of
                  None \<Rightarrow> Inr base
                | Some u \<Rightarrow>
                    if u = [] then Inr base
                    else (case urljoin_str b u of Inl e \<Rightarrow> Inl e | Inr s \<Rightarrow> Inr (Some s))))"

subsection \<open>Collaborators and effects\<close>

record enterprise_customer =
  enable_learner_portal :: bool
  slug :: string

text \<open>One entry of \<^verbatim>\<open>get_enterprise_learner_data_from_db(user)\<close>.\<close>

record enterprise_learner =
  learner_enterprise_customer :: "enterprise_customer option"

text \<open>A row of \<^verbatim>\<open>PersistentCourseGrade\<close>.\<close>

record grade =
  grade_user_id :: int
  grade_course_id :: string

text \<open>What the command reads from outside itself: the settings, the grade and user
  tables, the catalog, the progress meter, the enterprise lookup, the date and the
  library's \<^verbatim>\<open>urljoin\<close>. \<open>passed_grades\<close> is the queryset
  \<^verbatim>\<open>PersistentCourseGrade.objects.filter(passed_timestamp__date=yesterday)\<close>.\<close>

record env =
  ENTERPRISE_LEARNER_PORTAL_BASE_URL :: string
  MKTG_URLS_ROOT :: "string option"
  yesterday :: string
  passed_grades :: "grade list"
  user_objects :: "user list"
  get_programs :: "string \<Rightarrow> program list"
  meter_progress :: "user \<Rightarrow> program list \<Rightarrow> program_progress list"
  get_enterprise_learner_data_from_db :: "user \<Rightarrow> enterprise_learner list option"
  env_urljoin :: "string option \<Rightarrow> string option \<Rightarrow> py_error + string option"

text \<open>A call of \<^verbatim>\<open>segment.track(user.id, name, event_properties)\<close>.\<close>

record segment_event =
  event_user_id :: int
  event_name :: string
  COURSE_ONE_NAME :: string
  PROGRAM_TYPE :: string
  PROGRAM_TITLE :: string
  COURSE_TWO_NAME :: string
  COURSE_TWO_SHORT_DESCRIPTION :: string
  COURSE_TWO_LINK :: "string option"
  COURSE_TWO_IMAGE_LINK :: "string option"

text \<open>The three \<^verbatim>\<open>LOGGER.info\<close> calls of the command, with their arguments.\<close>

datatype log_entry =
  PassingGradesFound nat string nat nat
  | SegmentEventFired string string string string
  | EmailsSent nat "string list"

text \<open>The effects of the command: the calls the analytics sink has received and the
  lines logged, oldest first.\<close>

record world =
  tracked :: "segment_event list"
  logged :: "log_entry list"

subsection \<open>Passing grades of yesterday\<close>

text \<open>\<^verbatim>\<open>passed_course_to_users_maps[course_id].append(user)\<close> on a
  \<^verbatim>\<open>defaultdict(list)\<close>; the dictionary keeps its keys in insertion order.\<close>

fun defaultdict_append :: "(string \<times> user list) list \<Rightarrow> string \<Rightarrow> user \<Rightarrow> (string \<times> user list) list" where
  "defaultdict_append [] k u = [(k, [u])]"
| "defaultdict_append ((k', us) # m) k u =
     (if k' = k then (k', us @ [u]) # m else (k', us) # defaultdict_append m k u)"

fun passed_grades_loop ::
  "(int \<rightharpoonup> user) \<Rightarrow> grade list \<Rightarrow> (string \<times> user list) list
     \<Rightarrow> py_error + (string \<times> user list) list" where
  "passed_grades_loop user_id_to_user_map [] m = Inr m"
| "passed_grades_loop user_id_to_user_map (g # gs) m =
     (case user_id_to_user_map (grade_user_id g) of
        None \<Rightarrow> Inl KeyError
      | Some u \<Rightarrow>
          passed_grades_loop user_id_to_user_map gs (defaultdict_append m (grade_course_id g) u))"

definition get_passed_course_to_users_maps ::
  "env \<Rightarrow> world \<Rightarrow> world \<times> (py_error + (string \<times> user list) list)" where
  "get_passed_course_to_users_maps e w =
     (let passing_user_ids = remdups (map grade_user_id (passed_grades e));
          passing_users = filter (\<lambda>u. user_id u \<in> set passing_user_ids) (user_objects e);
          user_id_to_user_map = map_of (rev (map (\<lambda>u. (user_id u, u)) passing_users))
      in case passed_grades_loop user_id_to_user_map (passed_grades e) [] of
           Inl err \<Rightarrow> (w, Inl err)
         | Inr m \<Rightarrow>
             (w\<lparr>logged := logged w @
                  [PassingGradesFound (length (passed_grades e)) (yesterday e)
                     (length passing_user_ids) (length m)]\<rparr>,
              Inr m))"

subsection \<open>Emitting the event\<close>

text \<open>The recommended URL: the branch on the first enterprise learner record, then
  \<^verbatim>\<open>urljoin\<close>.\<close>

definition enterprise_customer_of :: "enterprise_learner list option \<Rightarrow> enterprise_customer option" where
  "enterprise_customer_of learner_data =
     (case learner_data of
        None \<Rightarrow> None
      | Some [] \<Rightarrow> None
      | Some (l # _) \<Rightarrow> learner_enterprise_customer l)"

definition portal_enabled :: "enterprise_customer option \<Rightarrow> bool" where
  "portal_enabled ec = (case ec of None \<Rightarrow> False | Some c \<Rightarrow> enable_learner_portal c)"

definition recommended_course_url ::
  "env \<Rightarrow> user \<Rightarrow> course_run \<Rightarrow> course \<Rightarrow> py_error + string option" where
  "recommended_course_url e u suggested_course_run suggested_course =
     (case enterprise_customer_of (get_enterprise_learner_data_from_db e u) of
        None \<Rightarrow> env_urljoin e (MKTG_URLS_ROOT e) (marketing_url suggested_course_run)
      | Some c \<Rightarrow>
          if enable_learner_portal c
          then env_urljoin e (Some (ENTERPRISE_LEARNER_PORTAL_BASE_URL e))
                 (Some (join_with CHR ''/'' [slug c, ''course'', course_key suggested_course]))
          else env_urljoin e (MKTG_URLS_ROOT e) (marketing_url suggested_course_run))"

text \<open>\<^verbatim>\<open>emit_event\<close>. Subscripting \<^verbatim>\<open>None\<close> raises \<^verbatim>\<open>TypeError\<close>; \<^verbatim>\<open>.get\<close> on
  \<^verbatim>\<open>None\<close> raises \<^verbatim>\<open>AttributeError\<close>. The dictionary of properties is built in the
  order written, so the completed course run is read before the image.\<close>

definition emit_event ::
  "env \<Rightarrow> user \<Rightarrow> program \<Rightarrow> course_run \<Rightarrow> course \<Rightarrow> course_run option \<Rightarrow> world
     \<Rightarrow> world \<times> (py_error + unit)" where
  "emit_event e u p suggested_course_run suggested_course completed_course_run w =
     (case recommended_course_url e u suggested_course_run suggested_course of
        Inl err \<Rightarrow> (w, Inl err)
      | Inr url \<Rightarrow>
     (case completed_course_run of
        None \<Rightarrow> (w, Inl TypeError)
      | Some completed_run \<Rightarrow>
     (case run_image suggested_course_run of
        None \<Rightarrow> (w, Inl AttributeError)
      | Some img \<Rightarrow>
          (w\<lparr>tracked := tracked w @
               [\<lparr>event_user_id = user_id u,
                 event_name = ''edx.bi.program.course-enrollment.nudge'',
                 COURSE_ONE_NAME = run_title completed_run,
                 PROGRAM_TYPE = ptype p,
                 PROGRAM_TITLE = title p,
                 COURSE_TWO_NAME = run_title suggested_course_run,
                 COURSE_TWO_SHORT_DESCRIPTION = short_description suggested_course_run,
                 COURSE_TWO_LINK = url,
                 COURSE_TWO_IMAGE_LINK = map_of img ''src''\<rparr>],
              logged := logged w @
               [SegmentEventFired (run_key completed_run) (uuid p)
                  (run_key suggested_course_run) (username u)]\<rparr>,
           Inr ()))))"

subsection \<open>The command\<close>

text \<open>Unpacking a tuple into three names raises \<^verbatim>\<open>ValueError\<close> unless it has three
  components.\<close>

fun unpack3 :: "pyval list \<Rightarrow> py_error + (pyval \<times> pyval \<times> pyval)" where
  "unpack3 [a, b, c] = Inr (a, b, c)"
| "unpack3 _ = Inl ValueError"

definition email_sent_record :: "user \<Rightarrow> string \<Rightarrow> course_run \<Rightarrow> string" where
  "email_sent_record u completed_course_id suggested_course_run =
     ''User: '' @ username u @ '', Completed Course: '' @ completed_course_id
       @ '', Suggested Course: '' @ run_key suggested_course_run"

text \<open>The body of the loop over the users of one completed course. It returns the world
  and either the exception raised or the list of records as the iteration leaves it.\<close>

definition handle_user ::
  "env \<Rightarrow> bool \<Rightarrow> string \<Rightarrow> program list \<Rightarrow> user \<Rightarrow> world \<Rightarrow> string list
     \<Rightarrow> world \<times> (py_error + string list)" where
  "handle_user e should_commit completed_course_id course_linked_programs u w email_sent_records =
     (let programs_progress = meter_progress e u course_linked_programs
      in case unpack3 (get_course_run_to_suggest programs_progress completed_course_id) of
           Inl err \<Rightarrow> (w, Inl err)
         | Inr (suggested_program_progress, suggested_course_run, suggested_course) \<Rightarrow>
             if truthy suggested_course_run \<and> truthy suggested_course
             then
               (case (suggested_program_progress, suggested_course_run, suggested_course) of
                  (PProgress spp, PCourseRun sr, PCourse sc) \<Rightarrow>
                    (case get_program course_linked_programs spp of
                       None \<Rightarrow> (w, Inl TypeError)
                     | Some suggested_program \<Rightarrow>
                         (let completed_course_run = get_course_run suggested_program completed_course_id
                          in if should_commit
                             then
                               (case emit_event e u suggested_program sr sc completed_course_run w of
                                  (w', Inl err) \<Rightarrow> (w', Inl err)
                                | (w', Inr _) \<Rightarrow>
                                    (w', Inr (email_sent_records
                                               @ [email_sent_record u completed_course_id sr])))
                             else
                               (w, Inr (email_sent_records
                                         @ [email_sent_record u completed_course_id sr]))))
                | _ \<Rightarrow> (w, Inl TypeError))
             else (w, Inr email_sent_records))"

fun users_loop ::
  "env \<Rightarrow> bool \<Rightarrow> string \<Rightarrow> program list \<Rightarrow> user list \<Rightarrow> world \<Rightarrow> string list
     \<Rightarrow> world \<times> (py_error + string list)" where
  "users_loop e should_commit cid ps [] w recs = (w, Inr recs)"
| "users_loop e should_commit cid ps (u # us) w recs =
     (case handle_user e should_commit cid ps u w recs of
        (w', Inl err) \<Rightarrow> (w', Inl err)
      | (w', Inr recs') \<Rightarrow> users_loop e should_commit cid ps us w' recs')"

text \<open>The body of the loop over the completed courses.\<close>

definition handle_course ::
  "env \<Rightarrow> bool \<Rightarrow> string \<Rightarrow> user list \<Rightarrow> world \<Rightarrow> string list
     \<Rightarrow> world \<times> (py_error + string list)" where
  "handle_course e should_commit completed_course_id users w email_sent_records =
     (case snd (sort_programs (get_programs e completed_course_id)) of
        Inl err \<Rightarrow> (w, Inl err)
      | Inr course_linked_programs \<Rightarrow>
          if course_linked_programs \<noteq> []
          then users_loop e should_commit completed_course_id course_linked_programs users
                 w email_sent_records
          else (w, Inr email_sent_records))"

fun courses_loop ::
  "env \<Rightarrow> bool \<Rightarrow> (string \<times> user list) list \<Rightarrow> world \<Rightarrow> string list
     \<Rightarrow> world \<times> (py_error + string list)" where
  "courses_loop e should_commit [] w recs = (w, Inr recs)"
| "courses_loop e should_commit ((cid, users) # m) w recs =
     (case handle_course e should_commit cid users w recs of
        (w', Inl err) \<Rightarrow> (w', Inl err)
      | (w', Inr recs') \<Rightarrow> courses_loop e should_commit m w' recs')"

text \<open>\<^verbatim>\<open>handle\<close>, given the value of the option \<^verbatim>\<open>no_commit\<close>. It returns the world
  and either the exception that ended the run or the list \<^verbatim>\<open>email_sent_records\<close>.\<close>

definition handle :: "env \<Rightarrow> bool \<Rightarrow> world \<Rightarrow> world \<times> (py_error + string list)" where
  "handle e no_commit w =
     (let should_commit = \<not> no_commit
      in case get_passed_course_to_users_maps e w of
           (w1, Inl err) \<Rightarrow> (w1, Inl err)
         | (w1, Inr course_to_users_maps) \<Rightarrow>
             (case courses_loop e should_commit course_to_users_maps w1 [] of
                (w2, Inl err) \<Rightarrow> (w2, Inl err)
              | (w2, Inr email_sent_records) \<Rightarrow>
                  (w2\<lparr>logged := logged w2 @
                        [EmailsSent (length email_sent_records) email_sent_records]\<rparr>,
                   Inr email_sent_records)))"

subsection \<open>The selection as the specification words it\<close>

text \<open>The eligibility invariant of the specification: enrollable, marketable, a non-empty
  marketing URL, an image, the status "published", and a key other than the completed
  course's.\<close>

definition eligible :: "string \<Rightarrow> course_run \<Rightarrow> bool" where
  "eligible cid r \<longleftrightarrow>
     is_enrollable r \<and> is_marketable r
     \<and> (case marketing_url r of None \<Rightarrow> False | Some u \<Rightarrow> u \<noteq> [])
     \<and> (case run_image r of None \<Rightarrow> False | Some img \<Rightarrow> img \<noteq> [])
     \<and> status r = ''published''
     \<and> run_key r \<noteq> cid"

text \<open>The candidates in the order the specification gives: program order, then the order
  of the program's not started courses, then the order of the course's runs.\<close>

definition spec_candidates ::
  "program_progress list \<Rightarrow> (program_progress \<times> course \<times> course_run) list" where
  "spec_candidates pp =
     concat (map (\<lambda>p. concat (map (\<lambda>c. map (\<lambda>r. (p, c, r)) (course_runs c)) (not_started p))) pp)"

text \<open>\<open>selectNextCourse\<close> of the specification: the first eligible candidate.\<close>

definition spec_select_next_course ::
  "program_progress list \<Rightarrow> string \<Rightarrow> (program_progress \<times> course \<times> course_run) option" where
  "spec_select_next_course pp cid = List.find (\<lambda>(p, c, r). eligible cid r) (spec_candidates pp)"

subsection \<open>The records of a run, learner by learner\<close>





subsection \<open>The selection on a store of objects\<close>

text \<open>
  The arguments of \<^verbatim>\<open>get_course_run_to_suggest\<close> are Python objects: lists and
  dictionaries that refer to one another and that any statement may change. To say what
  the call does to them, the function is written a second time over a store of such
  objects, statement by statement, with the store passed through every operation and
  returned. A value is \<^verbatim>\<open>None\<close>, a boolean, an integer, a string, or a reference to a
  dictionary (with string keys, in insertion order) or to a list.
\<close>

type_synonym addr = nat

datatype val = VNone | VBool bool | VInt int | VStr string | VRef addr

datatype obj = DictObj "(string \<times> val) list" | ListObj "val list"

type_synonym heap = "addr \<Rightarrow> obj option"

text \<open>A computation takes the store and returns the store it leaves, with its value or
  the exception it raises.\<close>

type_synonym 'a py = "heap \<Rightarrow> heap \<times> (py_error + 'a)"

definition py_return :: "'a \<Rightarrow> 'a py" where
  "py_return x = (\<lambda>h. (h, Inr x))"

definition py_bind :: "'a py \<Rightarrow> ('a \<Rightarrow> 'b py) \<Rightarrow> 'b py" where
  "py_bind m f = (\<lambda>h. case m h of (h', Inl err) \<Rightarrow> (h', Inl err) | (h', Inr x) \<Rightarrow> f x h')"

text \<open>\<^verbatim>\<open>v[k]\<close> for a string \<open>k\<close>: the entry of a dictionary, \<^verbatim>\<open>KeyError\<close> when it has
  none, \<^verbatim>\<open>TypeError\<close> on every other value.\<close>

definition getitem :: "val \<Rightarrow> string \<Rightarrow> val py" where
  "getitem v k =
     (\<lambda>h. (h, case v of
                 VRef a \<Rightarrow>
                   (case h a of
                      Some (DictObj kvs) \<Rightarrow>
                        (case map_of kvs k of Some x \<Rightarrow> Inr x | None \<Rightarrow> Inl KeyError)
                    | _ \<Rightarrow> Inl TypeError)
               | _ \<Rightarrow> Inl TypeError))"

text \<open>The values \<^verbatim>\<open>for x in v\<close> visits: the elements of a list, the keys of a
  dictionary, the characters of a string; \<^verbatim>\<open>TypeError\<close> on the other values.\<close>

definition iterate :: "val \<Rightarrow> val list py" where
  "iterate v =
     (\<lambda>h. (h, case v of
                 VRef a \<Rightarrow>
                   (case h a of
                      Some (ListObj vs) \<Rightarrow> Inr vs
                    | Some (DictObj kvs) \<Rightarrow> Inr (map (\<lambda>kv. VStr (fst kv)) kvs)
                    | None \<Rightarrow> Inl TypeError)
               | VStr s \<Rightarrow> Inr (map (\<lambda>c. VStr [c]) s)
               | _ \<Rightarrow> Inl TypeError))"

text \<open>The truth value of a value.\<close>

definition truth :: "val \<Rightarrow> bool py" where
  "truth v =
     (\<lambda>h. (h, case v of
                 VNone \<Rightarrow> Inr False
               | VBool b \<Rightarrow> Inr b
               | VInt i \<Rightarrow> Inr (i \<noteq> 0)
               | VStr s \<Rightarrow> Inr (s \<noteq> [])
               | VRef a \<Rightarrow>
                   (case h a of
                      Some (DictObj kvs) \<Rightarrow> Inr (kvs \<noteq> [])
                    | Some (ListObj vs) \<Rightarrow> Inr (vs \<noteq> [])
                    | None \<Rightarrow> Inl TypeError)))"

text \<open>\<^verbatim>\<open>valid_course_run\<close>: a chain of \<^verbatim>\<open>and\<close>, which returns its first operand that is
  false without reading the later keys, and the comparison of the status otherwise.\<close>

definition valid_course_run_heap :: "val \<Rightarrow> val py" where
  "valid_course_run_heap course_run =
     py_bind (getitem course_run ''is_enrollable'') (\<lambda>v1.
     py_bind (truth v1) (\<lambda>t1.
     if \<not> t1 then py_return v1 else
     py_bind (getitem course_run ''is_marketable'') (\<lambda>v2.
     py_bind (truth v2) (\<lambda>t2.
     if \<not> t2 then py_return v2 else
     py_bind (getitem course_run ''marketing_url'') (\<lambda>v3.
     py_bind (truth v3) (\<lambda>t3.
     if \<not> t3 then py_return v3 else
     py_bind (getitem course_run ''image'') (\<lambda>v4.
     py_bind (truth v4) (\<lambda>t4.
     if \<not> t4 then py_return v4 else
     py_bind (getitem course_run ''status'') (\<lambda>v5.
     py_return (VBool (v5 = VStr COURSE_PUBLISHED)))))))))))"

text \<open>The condition of the \<^verbatim>\<open>if\<close> in the innermost loop.\<close>

definition suggest_condition :: "string \<Rightarrow> val \<Rightarrow> bool py" where
  "suggest_condition completed_course_id course_run =
     py_bind (valid_course_run_heap course_run) (\<lambda>v.
     py_bind (truth v) (\<lambda>t.
     if \<not> t then py_return False else
     py_bind (getitem course_run ''key'') (\<lambda>k.
     py_return (k \<noteq> VStr completed_course_id))))"

text \<open>The three loops, innermost first, over the values the \<^verbatim>\<open>for\<close> statement visits.
  \<open>Some\<close> is the tuple of the \<^verbatim>\<open>return\<close> inside the loops.\<close>

fun course_runs_loop_heap ::
  "string \<Rightarrow> val \<Rightarrow> val \<Rightarrow> val list \<Rightarrow> heap \<Rightarrow> heap \<times> (py_error + val list option)" where
  "course_runs_loop_heap cid program course [] h = (h, Inr None)"
| "course_runs_loop_heap cid program course (course_run # rest) h =
     (case suggest_condition cid course_run h of
        (h', Inl err) \<Rightarrow> (h', Inl err)
      | (h', Inr b) \<Rightarrow>
          if b then (h', Inr (Some [program, course_run, course]))
          else course_runs_loop_heap cid program course rest h')"

fun not_started_loop_heap ::
  "string \<Rightarrow> val \<Rightarrow> val list \<Rightarrow> heap \<Rightarrow> heap \<times> (py_error + val list option)" where
  "not_started_loop_heap cid program [] h = (h, Inr None)"
| "not_started_loop_heap cid program (course # rest) h =
     (case py_bind (getitem course ''course_runs'') iterate h of
        (h', Inl err) \<Rightarrow> (h', Inl err)
      | (h', Inr runs) \<Rightarrow>
          (case course_runs_loop_heap cid program course runs h' of
             (h'', Inl err) \<Rightarrow> (h'', Inl err)
           | (h'', Inr (Some t)) \<Rightarrow> (h'', Inr (Some t))
           | (h'', Inr None) \<Rightarrow> not_started_loop_heap cid program rest h''))"

fun programs_loop_heap ::
  "string \<Rightarrow> val list \<Rightarrow> heap \<Rightarrow> heap \<times> (py_error + val list option)" where
  "programs_loop_heap cid [] h = (h, Inr None)"
| "programs_loop_heap cid (program # rest) h =
     (case py_bind (getitem program ''not_started'') iterate h of
        (h', Inl err) \<Rightarrow> (h', Inl err)
      | (h', Inr not_started_courses) \<Rightarrow>
          (case not_started_loop_heap cid program not_started_courses h' of
             (h'', Inl err) \<Rightarrow> (h'', Inl err)
           | (h'', Inr (Some t)) \<Rightarrow> (h'', Inr (Some t))
           | (h'', Inr None) \<Rightarrow> programs_loop_heap cid rest h''))"

definition get_course_run_to_suggest_heap :: "val \<Rightarrow> string \<Rightarrow> val list py" where
  "get_course_run_to_suggest_heap programs_progress completed_course_id =
     py_bind (iterate programs_progress) (\<lambda>programs.
     py_bind (programs_loop_heap completed_course_id programs) (\<lambda>found.
     py_return (case found of Some t \<Rightarrow> t | None \<Rightarrow> [VNone, VNone])))"

text \<open>A computation that returns the store it was given.\<close>

definition leaves_store :: "'a py \<Rightarrow> bool" where
  "leaves_store m \<longleftrightarrow> (\<forall>h. fst (m h) = h)"

subsection \<open>Reading the records off the store\<close>

text \<open>The record a reference stands for, when the object has the keys of the record with
  values of their types: how the dictionaries of the first model lie in the store.\<close>

definition dict_of :: "heap \<Rightarrow> val \<Rightarrow> (string \<times> val) list option" where
  "dict_of h v =
     (case v of
        VRef a \<Rightarrow> (case h a of Some (DictObj kvs) \<Rightarrow> Some kvs | _ \<Rightarrow> None)
      | _ \<Rightarrow> None)"

definition elems_of :: "heap \<Rightarrow> val \<Rightarrow> val list option" where
  "elems_of h v =
     (case v of
        VRef a \<Rightarrow> (case h a of Some (ListObj vs) \<Rightarrow> Some vs | _ \<Rightarrow> None)
      | _ \<Rightarrow> None)"

definition get_str :: "(string \<times> val) list \<Rightarrow> string \<Rightarrow> string option" where
  "get_str kvs k = (case map_of kvs k of Some (VStr s) \<Rightarrow> Some s | _ \<Rightarrow> None)"

definition get_bool :: "(string \<times> val) list \<Rightarrow> string \<Rightarrow> bool option" where
  "get_bool kvs k = (case map_of kvs k of Some (VBool b) \<Rightarrow> Some b | _ \<Rightarrow> None)"

definition get_opt_str :: "(string \<times> val) list \<Rightarrow> string \<Rightarrow> string option option" where
  "get_opt_str kvs k =
     (case map_of kvs k of
        Some VNone \<Rightarrow> Some None
      | Some (VStr s) \<Rightarrow> Some (Some s)
      | _ \<Rightarrow> None)"

fun str_entry :: "string \<times> val \<Rightarrow> (string \<times> string) option" where
  "str_entry (k, VStr s) = Some (k, s)"
| "str_entry _ = None"

definition get_image ::
  "heap \<Rightarrow> (string \<times> val) list \<Rightarrow> string \<Rightarrow> (string \<times> string) list option option" where
  "get_image h kvs k =
     (case map_of kvs k of
        Some VNone \<Rightarrow> Some None
      | Some (VRef a) \<Rightarrow>
          (case h a of
             Some (DictObj img) \<Rightarrow> map_option Some (those (map str_entry img))
           | _ \<Rightarrow> None)
      | _ \<Rightarrow> None)"

definition load_run :: "heap \<Rightarrow> val \<Rightarrow> course_run option" where
  "load_run h v =
     Option.bind (dict_of h v) (\<lambda>kvs.
     Option.bind (get_str kvs ''key'') (\<lambda>k.
     Option.bind (get_bool kvs ''is_enrollable'') (\<lambda>en.
     Option.bind (get_bool kvs ''is_marketable'') (\<lambda>ma.
     Option.bind (get_opt_str kvs ''marketing_url'') (\<lambda>mu.
     Option.bind (get_image h kvs ''image'') (\<lambda>im.
     Option.bind (get_str kvs ''status'') (\<lambda>st.
     Option.bind (get_str kvs ''title'') (\<lambda>ti.
     Option.bind (get_str kvs ''short_description'') (\<lambda>sd.
     Some \<lparr>run_key = k, is_enrollable = en, is_marketable = ma, marketing_url = mu,
           run_image = im, status = st, run_title = ti, short_description = sd\<rparr>)))))))))"

definition load_list :: "(heap \<Rightarrow> val \<Rightarrow> 'a option) \<Rightarrow> heap \<Rightarrow> val \<Rightarrow> 'a list option" where
  "load_list load h v = Option.bind (elems_of h v) (\<lambda>vs. those (map (load h) vs))"

definition load_course :: "heap \<Rightarrow> val \<Rightarrow> course option" where
  "load_course h v =
     Option.bind (dict_of h v) (\<lambda>kvs.
     Option.bind (get_str kvs ''key'') (\<lambda>k.
     Option.bind (map_of kvs ''course_runs'') (\<lambda>rv.
     Option.bind (load_list load_run h rv) (\<lambda>rs.
     Some \<lparr>course_key = k, course_runs = rs\<rparr>))))"

definition load_progress :: "heap \<Rightarrow> val \<Rightarrow> program_progress option" where
  "load_progress h v =
     Option.bind (dict_of h v) (\<lambda>kvs.
     Option.bind (get_str kvs ''uuid'') (\<lambda>u.
     Option.bind (map_of kvs ''completed'') (\<lambda>cv.
     Option.bind (load_list load_course h cv) (\<lambda>cs.
     Option.bind (map_of kvs ''in_progress'') (\<lambda>iv.
     Option.bind (load_list load_course h iv) (\<lambda>is.
     Option.bind (map_of kvs ''not_started'') (\<lambda>nv.
     Option.bind (load_list load_course h nv) (\<lambda>ns.
     Some \<lparr>progress_uuid = u, completed = cs, in_progress = is, not_started = ns\<rparr>))))))))"

text \<open>The tuple of the first model that a returned tuple of references stands for.\<close>

definition load_result :: "heap \<Rightarrow> val list \<Rightarrow> pyval list option" where
  "load_result h t =
     (if t = [VNone, VNone] then Some [PNone, PNone]
      else case t of
             [pv, rv, cv] \<Rightarrow>
               Option.bind (load_progress h pv) (\<lambda>p.
               Option.bind (load_run h rv) (\<lambda>r.
               Option.bind (load_course h cv) (\<lambda>c.
               Some [PProgress p, PCourseRun r, PCourse c])))
           | _ \<Rightarrow> None)"

subsection \<open>A catalog and a learner to evaluate the command on\<close>

text \<open>The scenario of the specification: the learner \<open>alice\<close> passed \<open>CS101\<close> yesterday;
  it belongs to a Professional Certificate, whose other course has an unmarketable run
  only, and to an XSeries, whose other course \<open>CS202\<close> has a run that can be suggested.\<close>

definition example_run_cs101 :: course_run where
  "example_run_cs101 =
     \<lparr>run_key = ''CS101'', is_enrollable = True, is_marketable = True,
      marketing_url = Some ''https://www.edx.org/course/cs101'',
      run_image = Some [(''src'', ''https://www.edx.org/cs101.png'')],
      status = ''published'', run_title = ''Programming'', short_description = ''First course''\<rparr>"

definition example_run_cs150 :: course_run where
  "example_run_cs150 =
     \<lparr>run_key = ''CS150'', is_enrollable = True, is_marketable = False,
      marketing_url = Some ''https://www.edx.org/course/cs150'',
      run_image = Some [(''src'', ''https://www.edx.org/cs150.png'')],
      status = ''published'', run_title = ''Logic'', short_description = ''Not marketed''\<rparr>"

definition example_run_cs202 :: course_run where
  "example_run_cs202 =
     \<lparr>run_key = ''CS202'', is_enrollable = True, is_marketable = True,
      marketing_url = Some ''https://www.edx.org/course/cs202'',
      run_image = Some [(''src'', ''https://www.edx.org/cs202.png'')],
      status = ''published'', run_title = ''Algorithms'', short_description = ''Second course''\<rparr>"

definition example_course_cs101 :: course where
  "example_course_cs101 = \<lparr>course_key = ''CS101'', course_runs = [example_run_cs101]\<rparr>"

definition example_course_cs150 :: course where
  "example_course_cs150 = \<lparr>course_key = ''CS150'', course_runs = [example_run_cs150]\<rparr>"

definition example_course_cs202 :: course where
  "example_course_cs202 = \<lparr>course_key = ''CS202'', course_runs = [example_run_cs202]\<rparr>"

definition example_program_pc :: program where
  "example_program_pc =
     \<lparr>uuid = ''uuid-pc'', ptype = ''Professional Certificate'', title = ''Computing Basics'',
      courses = [example_course_cs101, example_course_cs150], sort_revenue_order = None\<rparr>"

definition example_program_xs :: program where
  "example_program_xs =
     \<lparr>uuid = ''uuid-xs'', ptype = ''XSeries'', title = ''Computer Science'',
      courses = [example_course_cs101, example_course_cs202], sort_revenue_order = None\<rparr>"

definition example_progress_pc :: program_progress where
  "example_progress_pc =
     \<lparr>progress_uuid = ''uuid-pc'', completed = [example_course_cs101], in_progress = [],
      not_started = [example_course_cs150]\<rparr>"

definition example_progress_xs :: program_progress where
  "example_progress_xs =
     \<lparr>progress_uuid = ''uuid-xs'', completed = [example_course_cs101], in_progress = [],
      not_started = [example_course_cs202]\<rparr>"

definition example_user :: user where
  "example_user = \<lparr>user_id = 7, username = ''alice''\<rparr>"

definition example_progress_of :: "program \<Rightarrow> program_progress" where
  "example_progress_of p =
     (if uuid p = ''uuid-pc'' then example_progress_pc else example_progress_xs)"

definition example_env :: env where
  "example_env =
     \<lparr>ENTERPRISE_LEARNER_PORTAL_BASE_URL = ''https://portal.example.com'',
      MKTG_URLS_ROOT = Some ''https://www.edx.org'',
      yesterday = ''2024-05-01'',
      passed_grades = [\<lparr>grade_user_id = 7, grade_course_id = ''CS101''\<rparr>],
      user_objects = [example_user],
      get_programs = (\<lambda>cid. if cid = ''CS101'' then [example_program_xs, example_program_pc] else []),
      meter_progress = (\<lambda>u ps. map example_progress_of ps),
      get_enterprise_learner_data_from_db = (\<lambda>u. None),
      env_urljoin = urljoin\<rparr>"


text \<open>A learner for whom every course of every linked program is completed: no course is
  left to suggest.\<close>

definition example_env_all_completed :: env where
  "example_env_all_completed =
     example_env\<lparr>meter_progress :=
       (\<lambda>u ps. map (\<lambda>p. \<lparr>progress_uuid = uuid p, completed = courses p, in_progress = [],
                             not_started = []\<rparr>) ps)\<rparr>"

definition empty_world :: world where
  "empty_world = \<lparr>tracked = [], logged = []\<rparr>"

text \<open>More programs for the ranking: a MicroMasters, a second XSeries and a program of a
  type the ranking table does not list.\<close>

definition example_program_mm :: program where
  "example_program_mm =
     \<lparr>uuid = ''uuid-mm'', ptype = ''MicroMasters'', title = ''Data Science'',
      courses = [example_course_cs101], sort_revenue_order = None\<rparr>"

definition example_program_xs2 :: program where
  "example_program_xs2 =
     \<lparr>uuid = ''uuid-xs2'', ptype = ''XSeries'', title = ''Software Engineering'',
      courses = [example_course_cs101], sort_revenue_order = Some 99\<rparr>"

definition example_program_bootcamp :: program where
  "example_program_bootcamp =
     \<lparr>uuid = ''uuid-bc'', ptype = ''Bootcamp'', title = ''Coding Bootcamp'',
      courses = [example_course_cs101], sort_revenue_order = None\<rparr>"



text \<open>The programs of the scenario as \<^verbatim>\<open>sort_programs\<close> leaves them.\<close>

definition example_ranked_pc :: program where
  "example_ranked_pc = example_program_pc\<lparr>sort_revenue_order := Some 3\<rparr>"

definition example_ranked_xs :: program where
  "example_ranked_xs = example_program_xs\<lparr>sort_revenue_order := Some 4\<rparr>"


text \<open>A catalog whose XSeries does not list the completed course run \<open>CS101\<close> among its
  courses.\<close>

definition example_program_xs_without_cs101 :: program where
  "example_program_xs_without_cs101 = example_ranked_xs\<lparr>courses := [example_course_cs202]\<rparr>"


text \<open>The scenario's progress list as objects in a store. The list at 12 is the argument
  \<^verbatim>\<open>programs_progress\<close>; the empty list at 9 is shared by the partitions that hold no
  course.\<close>

definition example_heap :: heap where
  "example_heap = map_of
     [(1, DictObj [(''src'', VStr ''https://www.edx.org/cs150.png'')]),
      (2, DictObj [(''key'', VStr ''CS150''), (''is_enrollable'', VBool True),
                   (''is_marketable'', VBool False),
                   (''marketing_url'', VStr ''https://www.edx.org/course/cs150''),
                   (''image'', VRef 1), (''status'', VStr ''published''),
                   (''title'', VStr ''Logic''), (''short_description'', VStr ''Not marketed'')]),
      (3, ListObj [VRef 2]),
      (4, DictObj [(''key'', VStr ''CS150''), (''course_runs'', VRef 3)]),
      (5, DictObj [(''src'', VStr ''https://www.edx.org/cs202.png'')]),
      (6, DictObj [(''key'', VStr ''CS202''), (''is_enrollable'', VBool True),
                   (''is_marketable'', VBool True),
                   (''marketing_url'', VStr ''https://www.edx.org/course/cs202''),
                   (''image'', VRef 5), (''status'', VStr ''published''),
                   (''title'', VStr ''Algorithms''), (''short_description'', VStr ''Second course'')]),
      (7, ListObj [VRef 6]),
      (8, DictObj [(''key'', VStr ''CS202''), (''course_runs'', VRef 7)]),
      (9, ListObj []),
      (10, DictObj [(''uuid'', VStr ''uuid-pc''), (''completed'', VRef 9),
                    (''in_progress'', VRef 9), (''not_started'', VRef 13)]),
      (11, DictObj [(''uuid'', VStr ''uuid-xs''), (''completed'', VRef 9),
                    (''in_progress'', VRef 9), (''not_started'', VRef 14)]),
      (12, ListObj [VRef 10, VRef 11]),
      (13, ListObj [VRef 4]),
      (14, ListObj [VRef 8])]"

section \<open>Properties\<close>

subsection \<open>The loops of the selection\<close>

lemma eligible_iff: "eligible cid r \<longleftrightarrow> valid_course_run r \<and> run_key r \<noteq> cid"
  by (cases "marketing_url r"; cases "run_image r")
     (auto simp: eligible_def valid_course_run_def COURSE_PUBLISHED_def)

lemma course_runs_loop_find: "course_runs_loop cid rs = List.find (eligible cid) rs"
  by (induction rs) (simp_all add: eligible_iff)

lemma find_append_cases:
  "List.find P (xs @ ys) = (case List.find P xs of Some x \<Rightarrow> Some x | None \<Rightarrow> List.find P ys)"
  by (induction xs) simp_all

lemma find_map_comp: "List.find P (map f xs) = map_option f (List.find (P \<circ> f) xs)"
  by (induction xs) simp_all

lemma not_started_loop_find:
  "not_started_loop cid cs =
     map_option (\<lambda>(c, r). (r, c))
       (List.find (\<lambda>(c, r). eligible cid r) (concat (map (\<lambda>c. map (Pair c) (course_runs c)) cs)))"
proof (induction cs)
  case Nil
  show ?case by simp
next
  case (Cons c cs)
  show ?case
    by (cases "List.find (eligible cid) (course_runs c)")
       (simp_all add: Cons.IH course_runs_loop_find find_append_cases find_map_comp comp_def)
qed

lemma programs_loop_find:
  "programs_loop cid pp = map_option (\<lambda>(p, c, r). (p, r, c)) (spec_select_next_course pp cid)"
proof (induction pp)
  case Nil
  show ?case by (simp add: spec_select_next_course_def spec_candidates_def)
next
  case (Cons p pp)
  have step: "List.find (\<lambda>(p, c, r). eligible cid r)
          (concat (map (\<lambda>c. map (\<lambda>r. (p, c, r)) (course_runs c)) (not_started p)))
        = map_option (Pair p)
            (List.find (\<lambda>(c, r). eligible cid r)
               (concat (map (\<lambda>c. map (Pair c) (course_runs c)) (not_started p))))"
  proof -
    have "concat (map (\<lambda>c. map (\<lambda>r. (p, c, r)) (course_runs c)) (not_started p))
          = map (Pair p) (concat (map (\<lambda>c. map (Pair c) (course_runs c)) (not_started p)))"
      by (simp add: map_concat comp_def)
    then show ?thesis
      by (simp add: find_map_comp comp_def)
  qed
  show ?case
    using Cons.IH
    by (cases "List.find (\<lambda>(c, r). eligible cid r)
                 (concat (map (\<lambda>c. map (Pair c) (course_runs c)) (not_started p)))")
       (auto simp: spec_select_next_course_def spec_candidates_def find_append_cases step
                   not_started_loop_find split: option.splits)
qed

lemma course_runs_loop_Some:
  "course_runs_loop cid rs = Some r \<Longrightarrow> r \<in> set rs \<and> valid_course_run r \<and> run_key r \<noteq> cid"
  by (induction rs) (auto split: if_splits)

lemma not_started_loop_Some:
  "not_started_loop cid cs = Some (r, c) \<Longrightarrow>
     c \<in> set cs \<and> r \<in> set (course_runs c) \<and> valid_course_run r \<and> run_key r \<noteq> cid"
  by (induction cs) (auto split: option.splits dest: course_runs_loop_Some)

lemma programs_loop_Some:
  "programs_loop cid pp = Some (p, r, c) \<Longrightarrow>
     p \<in> set pp \<and> c \<in> set (not_started p) \<and> r \<in> set (course_runs c)
     \<and> valid_course_run r \<and> run_key r \<noteq> cid"
  by (induction pp) (auto split: option.splits dest: not_started_loop_Some)

lemma course_runs_loop_None:
  "course_runs_loop cid rs = None \<longleftrightarrow> (\<forall>r\<in>set rs. \<not> (valid_course_run r \<and> run_key r \<noteq> cid))"
  by (induction rs) auto

lemma not_started_loop_None:
  "not_started_loop cid cs = None \<longleftrightarrow>
     (\<forall>c\<in>set cs. \<forall>r\<in>set (course_runs c). \<not> (valid_course_run r \<and> run_key r \<noteq> cid))"
proof (induction cs)
  case Nil
  show ?case by simp
next
  case (Cons c cs)
  show ?case
  proof (cases "course_runs_loop cid (course_runs c)")
    case None
    then show ?thesis
      using Cons.IH course_runs_loop_None [of cid "course_runs c"] by simp
  next
    case (Some r)
    then show ?thesis
      using course_runs_loop_Some [OF Some] by auto
  qed
qed

lemma programs_loop_None:
  "programs_loop cid pp = None \<longleftrightarrow>
     (\<forall>p\<in>set pp. \<forall>c\<in>set (not_started p). \<forall>r\<in>set (course_runs c).
        \<not> (valid_course_run r \<and> run_key r \<noteq> cid))"
proof (induction pp)
  case Nil
  show ?case by simp
next
  case (Cons p pp)
  show ?case
  proof (cases "not_started_loop cid (not_started p)")
    case None
    then show ?thesis
      using Cons.IH not_started_loop_None [of cid "not_started p"] by simp
  next
    case (Some rc)
    then have "not_started_loop cid (not_started p) \<noteq> None" by simp
    then show ?thesis
      using Some not_started_loop_None [of cid "not_started p"]
      by (cases rc) auto
  qed
qed

lemma get_course_run_to_suggest_cases:
  "get_course_run_to_suggest pp cid = [PNone, PNone] \<and> programs_loop cid pp = None
   \<or> (\<exists>p r c. get_course_run_to_suggest pp cid = [PProgress p, PCourseRun r, PCourse c]
         \<and> programs_loop cid pp = Some (p, r, c))"
  by (cases "programs_loop cid pp") (auto simp: get_course_run_to_suggest_def)

lemma programs_loop_not_started_only:
  "map not_started pp = map not_started pp' \<Longrightarrow>
     map_option snd (programs_loop cid pp) = map_option snd (programs_loop cid pp')"
proof (induction pp arbitrary: pp')
  case Nil
  then show ?case by simp
next
  case (Cons p pp)
  then obtain q qs where pp': "pp' = q # qs" and q: "not_started q = not_started p"
    and rest: "map not_started pp = map not_started qs"
    by (cases pp') auto
  show ?case
    using Cons.IH [OF rest]
    by (cases "not_started_loop cid (not_started p)") (auto simp: pp' q)
qed

lemma valid_course_run_example_cs202: "valid_course_run example_run_cs202"
  by (simp add: valid_course_run_def example_run_cs202_def COURSE_PUBLISHED_def)

lemma valid_course_run_example_cs150: "\<not> valid_course_run example_run_cs150"
  by (simp add: valid_course_run_def example_run_cs150_def)

lemma eligible_example_cs202: "eligible ''CS101'' example_run_cs202"
  by (simp add: eligible_iff valid_course_run_example_cs202) (simp add: example_run_cs202_def)

lemma suggest_example:
  "get_course_run_to_suggest [example_progress_pc, example_progress_xs] ''CS101''
     = [PProgress example_progress_xs, PCourseRun example_run_cs202, PCourse example_course_cs202]"
  by (simp add: get_course_run_to_suggest_def example_progress_pc_def example_progress_xs_def
        example_course_cs150_def example_course_cs202_def valid_course_run_example_cs202
        valid_course_run_example_cs150)
     (simp add: example_run_cs202_def)

subsection \<open>Ranking\<close>

lemma decorate_set_revenue_order:
  "decorate (map set_revenue_order ps)
     = Inr (map (\<lambda>p. (revenue_rank (ptype p), set_revenue_order p)) ps)"
  by (induction ps) (simp_all add: itemgetter_sort_revenue_order_def set_revenue_order_def)

lemma insort_key_fst_map:
  "insort_key fst (f x, g x) (map (\<lambda>p. (f p, g p)) xs)
     = map (\<lambda>p. (f p, g p)) (insort_key f x xs)"
  by (induction xs) simp_all

lemma sort_key_fst_map:
  "sort_key fst (map (\<lambda>p. (f p, g p)) xs) = map (\<lambda>p. (f p, g p)) (sort_key f xs)"
  by (induction xs) (simp_all add: insort_key_fst_map)

lemma sort_programs_result:
  "snd (sort_programs ps)
     = Inr (map set_revenue_order (sort_key (\<lambda>p. revenue_rank (ptype p)) ps))"
  by (simp add: sort_programs_def sorted_by_revenue_order_def decorate_set_revenue_order
        sort_key_fst_map comp_def)

lemma ptype_set_revenue_order: "ptype (set_revenue_order p) = ptype p"
  by (simp add: set_revenue_order_def)

lemma revenue_rank_known:
  "map revenue_rank [''MicroMasters'', ''Professional Program'', ''Professional Certificate'',
                     ''XSeries'', ''Masters'', ''MicroBachelors''] = [1, 2, 3, 4, 5, 6]"
  by (simp add: revenue_rank_def sort_revenue_order_table_def)

lemma revenue_rank_unknown:
  "t \<notin> set [''MicroMasters'', ''Professional Program'', ''Professional Certificate'',
             ''XSeries'', ''Masters'', ''MicroBachelors''] \<Longrightarrow> revenue_rank t = 7"
  by (simp add: revenue_rank_def sort_revenue_order_table_def)

lemma revenue_rank_le: "revenue_rank t \<le> 7"
  by (simp add: revenue_rank_def sort_revenue_order_table_def)

lemma sort_programs_example:
  "snd (sort_programs [example_program_bootcamp, example_program_xs, example_program_pc,
                       example_program_xs2])
     = Inr [example_program_pc\<lparr>sort_revenue_order := Some 3\<rparr>,
            example_program_xs\<lparr>sort_revenue_order := Some 4\<rparr>,
            example_program_xs2\<lparr>sort_revenue_order := Some 4\<rparr>,
            example_program_bootcamp\<lparr>sort_revenue_order := Some 7\<rparr>]"
  by (simp add: sort_programs_result set_revenue_order_def revenue_rank_def
        sort_revenue_order_table_def example_program_bootcamp_def example_program_xs_def
        example_program_pc_def example_program_xs2_def)

subsection \<open>The loops of the command\<close>

lemma handle_user_None:
  "programs_loop cid (meter_progress e u ps) = None \<Longrightarrow>
     handle_user e c cid ps u w recs = (w, Inl ValueError)"
  by (simp add: handle_user_def get_course_run_to_suggest_def)

lemma handle_user_Some:
  "programs_loop cid (meter_progress e u ps) = Some (spp, sr, sc) \<Longrightarrow>
     handle_user e c cid ps u w recs =
       (case get_program ps spp of
          None \<Rightarrow> (w, Inl TypeError)
        | Some sp \<Rightarrow>
            if c
            then (case emit_event e u sp sr sc (get_course_run sp cid) w of
                    (w', Inl err) \<Rightarrow> (w', Inl err)
                  | (w', Inr _) \<Rightarrow> (w', Inr (recs @ [email_sent_record u cid sr])))
            else (w, Inr (recs @ [email_sent_record u cid sr])))"
  by (simp add: handle_user_def get_course_run_to_suggest_def Let_def split: option.splits)











lemma get_passed_result_world:
  "snd (get_passed_course_to_users_maps e w) = snd (get_passed_course_to_users_maps e w0)"
  by (simp add: get_passed_course_to_users_maps_def Let_def split: sum.splits)

subsection \<open>The command on the example\<close>


lemma example_sorted:
  "snd (sort_programs (get_programs example_env ''CS101''))
     = Inr [example_program_pc\<lparr>sort_revenue_order := Some 3\<rparr>,
            example_program_xs\<lparr>sort_revenue_order := Some 4\<rparr>]"
  by (simp add: example_env_def sort_programs_result set_revenue_order_def revenue_rank_def
        sort_revenue_order_table_def example_program_pc_def example_program_xs_def)




lemma example_get_course_run:
  "get_course_run (example_program_xs\<lparr>sort_revenue_order := Some 4\<rparr>) ''CS101''
     = Some example_run_cs101"
  by (simp add: get_course_run_def example_program_xs_def example_course_cs101_def
        example_run_cs101_def)

lemma urljoin_absolute_example:
  "urljoin (Some ''https://www.edx.org'') (Some ''https://www.edx.org/course/cs202'')
     = Inr (Some ''https://www.edx.org/course/cs202'')"
  by code_simp


lemma example_recommended_url:
  "recommended_course_url example_env u example_run_cs202 example_course_cs202
     = Inr (Some ''https://www.edx.org/course/cs202'')"
  by (simp add: recommended_course_url_def example_env_def enterprise_customer_of_def
        example_run_cs202_def urljoin_absolute_example)









lemma example_all_completed_progress:
  "meter_progress example_env_all_completed u ps
     = map (\<lambda>p. \<lparr>progress_uuid = uuid p, completed = courses p, in_progress = [],
                   not_started = []\<rparr>) ps"
  by (simp add: example_env_all_completed_def example_env_def)

subsection \<open>The event and the lookups\<close>





lemma find_course_run_find: "find_course_run k rs = List.find (\<lambda>r. run_key r = k) rs"
  by (induction rs) simp_all

lemma get_course_run_courses_find:
  "get_course_run_courses cs k = List.find (\<lambda>r. run_key r = k) (concat (map course_runs cs))"
  by (induction cs) (simp_all add: find_append_cases find_course_run_find split: option.splits)

subsection \<open>The records of a run\<close>



















subsection \<open>The selection leaves the store\<close>

lemma leaves_store_return: "leaves_store (py_return x)"
  by (simp add: leaves_store_def py_return_def)

lemma leaves_store_getitem: "leaves_store (getitem v k)"
  by (simp add: leaves_store_def getitem_def)

lemma leaves_store_iterate: "leaves_store (iterate v)"
  by (simp add: leaves_store_def iterate_def)

lemma leaves_store_truth: "leaves_store (truth v)"
  by (simp add: leaves_store_def truth_def)

lemma leaves_store_bind:
  assumes "leaves_store m" and "\<And>x. leaves_store (f x)"
  shows "leaves_store (py_bind m f)"
proof -
  have "fst (py_bind m f h) = h" for h
  proof -
    obtain h' r where mh: "m h = (h', r)" by (cases "m h")
    with assms(1) have h': "h' = h"
      by (auto simp: leaves_store_def dest: spec [of _ h])
    show ?thesis
    proof (cases r)
      case (Inl err)
      with mh h' show ?thesis by (simp add: py_bind_def)
    next
      case (Inr x)
      with mh h' assms(2) [of x] show ?thesis
        by (simp add: py_bind_def leaves_store_def)
    qed
  qed
  then show ?thesis by (simp add: leaves_store_def)
qed

lemma leaves_store_if:
  "leaves_store a \<Longrightarrow> leaves_store b \<Longrightarrow> leaves_store (if c then a else b)"
  by simp

lemma leaves_store_valid: "leaves_store (valid_course_run_heap r)"
  unfolding valid_course_run_heap_def
  by (intro leaves_store_bind leaves_store_if leaves_store_getitem leaves_store_truth
        leaves_store_return)

lemma leaves_store_condition: "leaves_store (suggest_condition cid r)"
  unfolding suggest_condition_def
  by (intro leaves_store_bind leaves_store_if leaves_store_getitem leaves_store_truth
        leaves_store_return leaves_store_valid)

lemma leaves_storeD: "leaves_store m \<Longrightarrow> m h = (h', r) \<Longrightarrow> h' = h"
  by (auto simp: leaves_store_def dest: spec [of _ h])

lemma leaves_store_course_runs_loop: "fst (course_runs_loop_heap cid p c rs h) = h"
proof (induction rs)
  case Nil
  show ?case by simp
next
  case (Cons r rs)
  obtain h' res where s: "suggest_condition cid r h = (h', res)"
    by (cases "suggest_condition cid r h")
  then have h': "h' = h"
    using leaves_storeD [OF leaves_store_condition] by blast
  show ?case
    by (cases res) (simp_all add: s h' Cons.IH)
qed

lemma leaves_store_not_started_loop: "fst (not_started_loop_heap cid p cs h) = h"
proof (induction cs)
  case Nil
  show ?case by simp
next
  case (Cons c cs)
  have ls: "leaves_store (py_bind (getitem c ''course_runs'') iterate)"
    by (intro leaves_store_bind leaves_store_getitem leaves_store_iterate)
  obtain h' res where s: "py_bind (getitem c ''course_runs'') iterate h = (h', res)"
    by (cases "py_bind (getitem c ''course_runs'') iterate h")
  then have h': "h' = h"
    using leaves_storeD [OF ls] by blast
  show ?case
  proof (cases res)
    case (Inl err)
    then show ?thesis by (simp add: s h')
  next
    case (Inr runs)
    obtain h2 r2 where l: "course_runs_loop_heap cid p c runs h = (h2, r2)"
      by (cases "course_runs_loop_heap cid p c runs h")
    then have h2: "h2 = h"
      using leaves_store_course_runs_loop [of cid p c runs h] by simp
    show ?thesis
    proof (cases r2)
      case (Inl err)
      then show ?thesis by (simp add: s h' Inr l h2)
    next
      case rr: (Inr found)
      then show ?thesis
        by (cases found) (simp_all add: s h' Inr l h2 Cons.IH)
    qed
  qed
qed

lemma leaves_store_programs_loop: "fst (programs_loop_heap cid ps h) = h"
proof (induction ps)
  case Nil
  show ?case by simp
next
  case (Cons p ps)
  have ls: "leaves_store (py_bind (getitem p ''not_started'') iterate)"
    by (intro leaves_store_bind leaves_store_getitem leaves_store_iterate)
  obtain h' res where s: "py_bind (getitem p ''not_started'') iterate h = (h', res)"
    by (cases "py_bind (getitem p ''not_started'') iterate h")
  then have h': "h' = h"
    using leaves_storeD [OF ls] by blast
  show ?case
  proof (cases res)
    case (Inl err)
    then show ?thesis by (simp add: s h')
  next
    case (Inr courses)
    obtain h2 r2 where l: "not_started_loop_heap cid p courses h = (h2, r2)"
      by (cases "not_started_loop_heap cid p courses h")
    then have h2: "h2 = h"
      using leaves_store_not_started_loop [of cid p courses h] by simp
    show ?thesis
    proof (cases r2)
      case (Inl err)
      then show ?thesis by (simp add: s h' Inr l h2)
    next
      case rr: (Inr found)
      then show ?thesis
        by (cases found) (simp_all add: s h' Inr l h2 Cons.IH)
    qed
  qed
qed

lemma leaves_store_get_course_run_to_suggest:
  "leaves_store (get_course_run_to_suggest_heap pp cid)"
  unfolding get_course_run_to_suggest_heap_def
  by (intro leaves_store_bind leaves_store_iterate leaves_store_return)
     (simp add: leaves_store_def leaves_store_programs_loop)

subsection \<open>The selection on the store and on the records\<close>

lemma py_bind_Inr: "m h = (h', Inr x) \<Longrightarrow> py_bind m f h = f x h'"
  by (simp add: py_bind_def)

lemma getitem_dict:
  "dict_of h v = Some kvs \<Longrightarrow> map_of kvs k = Some x \<Longrightarrow> getitem v k h = (h, Inr x)"
  by (auto simp: dict_of_def getitem_def split: val.splits option.splits obj.splits)

lemma get_str_Some: "get_str kvs k = Some s \<Longrightarrow> map_of kvs k = Some (VStr s)"
  by (auto simp: get_str_def split: option.splits val.splits)

lemma get_bool_Some: "get_bool kvs k = Some b \<Longrightarrow> map_of kvs k = Some (VBool b)"
  by (auto simp: get_bool_def split: option.splits val.splits)

lemma get_opt_str_Some:
  "get_opt_str kvs k = Some mu \<Longrightarrow>
     \<exists>v. map_of kvs k = Some v \<and> truth v h = (h, Inr (truthy_str mu))"
  by (auto simp: get_opt_str_def truth_def split: option.splits val.splits)

lemma those_map_length: "those (map f xs) = Some ys \<Longrightarrow> length ys = length xs"
  by (induction xs arbitrary: ys) (auto split: option.splits)

lemma get_image_Some:
  "get_image h kvs k = Some im \<Longrightarrow>
     \<exists>v. map_of kvs k = Some v \<and> truth v h = (h, Inr (truthy_dict im))"
proof -
  assume a: "get_image h kvs k = Some im"
  show ?thesis
  proof (cases "map_of kvs k")
    case None
    with a show ?thesis by (simp add: get_image_def)
  next
    case (Some v)
    show ?thesis
    proof (cases v)
      case VNone
      with a Some show ?thesis by (auto simp: get_image_def truth_def)
    next
      case (VRef ad)
      with a Some obtain img im' where img: "h ad = Some (DictObj img)"
        and th: "those (map str_entry img) = Some im'" and im: "im = Some im'"
        by (auto simp: get_image_def split: option.splits obj.splits)
      from th have "length im' = length img" by (rule those_map_length)
      then have "(img \<noteq> []) = (im' \<noteq> [])" by auto
      with Some VRef img im show ?thesis by (simp add: truth_def)
    qed (use a Some in \<open>simp_all add: get_image_def\<close>)
  qed
qed

lemma valid_course_run_heap_load:
  assumes "load_run h rv = Some r"
  shows "\<exists>v. valid_course_run_heap rv h = (h, Inr v)
             \<and> truth v h = (h, Inr (valid_course_run r))"
    and "getitem rv ''key'' h = (h, Inr (VStr (run_key r)))"
proof -
  from assms obtain kvs k en ma mu im st ti sd where
    d: "dict_of h rv = Some kvs"
    and k: "get_str kvs ''key'' = Some k"
    and en: "get_bool kvs ''is_enrollable'' = Some en"
    and ma: "get_bool kvs ''is_marketable'' = Some ma"
    and mu: "get_opt_str kvs ''marketing_url'' = Some mu"
    and im: "get_image h kvs ''image'' = Some im"
    and st: "get_str kvs ''status'' = Some st"
    and r: "r = \<lparr>run_key = k, is_enrollable = en, is_marketable = ma, marketing_url = mu,
                  run_image = im, status = st, run_title = ti, short_description = sd\<rparr>"
    by (auto simp: load_run_def bind_eq_Some_conv)
  from get_opt_str_Some [OF mu, of h] obtain v3 where
    m3: "map_of kvs ''marketing_url'' = Some v3" and t3: "truth v3 h = (h, Inr (truthy_str mu))"
    by blast
  from get_image_Some [OF im] obtain v4 where
    m4: "map_of kvs ''image'' = Some v4" and t4: "truth v4 h = (h, Inr (truthy_dict im))"
    by blast
  have g1: "getitem rv ''is_enrollable'' h = (h, Inr (VBool en))"
    by (rule getitem_dict [OF d get_bool_Some [OF en]])
  have g2: "getitem rv ''is_marketable'' h = (h, Inr (VBool ma))"
    by (rule getitem_dict [OF d get_bool_Some [OF ma]])
  have g3: "getitem rv ''marketing_url'' h = (h, Inr v3)"
    by (rule getitem_dict [OF d m3])
  have g4: "getitem rv ''image'' h = (h, Inr v4)"
    by (rule getitem_dict [OF d m4])
  have g5: "getitem rv ''status'' h = (h, Inr (VStr st))"
    by (rule getitem_dict [OF d get_str_Some [OF st]])
  have tb: "truth (VBool b) h = (h, Inr b)" for b
    by (simp add: truth_def)
  show "getitem rv ''key'' h = (h, Inr (VStr (run_key r)))"
    using getitem_dict [OF d get_str_Some [OF k]] by (simp add: r)
  show "\<exists>v. valid_course_run_heap rv h = (h, Inr v)
             \<and> truth v h = (h, Inr (valid_course_run r))"
  proof (cases en)
    case False
    then show ?thesis
      by (simp add: valid_course_run_heap_def py_return_def tb valid_course_run_def r py_bind_def g1)
  next
    case en': True
    show ?thesis
    proof (cases ma)
      case False
      with en' show ?thesis
        by (simp add: valid_course_run_heap_def py_return_def tb valid_course_run_def r py_bind_def g1 g2)
    next
      case ma': True
      show ?thesis
      proof (cases "truthy_str mu")
        case False
        with en' ma' show ?thesis
          by (simp add: valid_course_run_heap_def py_return_def t3 valid_course_run_def r py_bind_def g1 g2 g3 tb)
      next
        case mu': True
        show ?thesis
        proof (cases "truthy_dict im")
          case False
          with en' ma' mu' show ?thesis
            by (simp add: valid_course_run_heap_def py_return_def t4 valid_course_run_def r py_bind_def g1 g2 g3 t3 g4 tb)
        next
          case True
          with en' ma' mu' show ?thesis
            by (simp add: valid_course_run_heap_def py_return_def tb valid_course_run_def r py_bind_def g1 g2 g3 t3 g4 t4 g5)
        qed
      qed
    qed
  qed
qed

lemma suggest_condition_load:
  assumes "load_run h rv = Some r"
  shows "suggest_condition cid rv h = (h, Inr (valid_course_run r \<and> run_key r \<noteq> cid))"
proof -
  from valid_course_run_heap_load(1) [OF assms] obtain v where
    v: "valid_course_run_heap rv h = (h, Inr v)"
    and t: "truth v h = (h, Inr (valid_course_run r))"
    by blast
  note k = valid_course_run_heap_load(2) [OF assms]
  show ?thesis
    by (simp add: suggest_condition_def py_return_def py_bind_def v t k)
qed

lemma those_map_Cons:
  "those (map f (x # xs)) = Some ys
     \<longleftrightarrow> (\<exists>y ys'. ys = y # ys' \<and> f x = Some y \<and> those (map f xs) = Some ys')"
  by (auto split: option.splits)

lemma course_runs_loop_heap_load:
  "those (map (load_run h) rvs) = Some rs \<Longrightarrow>
     (course_runs_loop cid rs = None
        \<and> course_runs_loop_heap cid pv cv rvs h = (h, Inr None))
     \<or> (\<exists>rv r. course_runs_loop cid rs = Some r \<and> load_run h rv = Some r
           \<and> course_runs_loop_heap cid pv cv rvs h = (h, Inr (Some [pv, rv, cv])))"
proof (induction rvs arbitrary: rs)
  case Nil
  then show ?case by simp
next
  case (Cons rv rvs)
  from Cons.prems obtain r rs' where rs: "rs = r # rs'" and l: "load_run h rv = Some r"
    and rest: "those (map (load_run h) rvs) = Some rs'"
    by (auto split: option.splits)
  note c = suggest_condition_load [OF l, of cid]
  show ?case
  proof (cases "valid_course_run r \<and> run_key r \<noteq> cid")
    case True
    with c l show ?thesis by (auto simp: rs)
  next
    case False
    with c Cons.IH [OF rest] show ?thesis by (auto simp: rs)
  qed
qed

lemma load_list_Some:
  "load_list load h v = Some xs \<Longrightarrow>
     \<exists>vs. iterate v h = (h, Inr vs) \<and> those (map (load h) vs) = Some xs"
  by (auto simp: load_list_def elems_of_def iterate_def bind_eq_Some_conv
           split: val.splits option.splits obj.splits)

lemma load_course_runs:
  assumes "load_course h cv = Some c"
  shows "\<exists>rvs. py_bind (getitem cv ''course_runs'') iterate h = (h, Inr rvs)
               \<and> those (map (load_run h) rvs) = Some (course_runs c)"
proof -
  from assms obtain kvs rv where d: "dict_of h cv = Some kvs"
    and m: "map_of kvs ''course_runs'' = Some rv"
    and l: "load_list load_run h rv = Some (course_runs c)"
    by (auto simp: load_course_def bind_eq_Some_conv)
  from load_list_Some [OF l] obtain rvs where
    i: "iterate rv h = (h, Inr rvs)" and t: "those (map (load_run h) rvs) = Some (course_runs c)"
    by blast
  have "py_bind (getitem cv ''course_runs'') iterate h = (h, Inr rvs)"
    by (simp add: py_bind_def getitem_dict [OF d m] i)
  with t show ?thesis by blast
qed

lemma not_started_loop_heap_load:
  "those (map (load_course h) cvs) = Some cs \<Longrightarrow>
     (not_started_loop cid cs = None
        \<and> not_started_loop_heap cid pv cvs h = (h, Inr None))
     \<or> (\<exists>rv cv r c. not_started_loop cid cs = Some (r, c)
           \<and> load_run h rv = Some r \<and> load_course h cv = Some c
           \<and> not_started_loop_heap cid pv cvs h = (h, Inr (Some [pv, rv, cv])))"
proof (induction cvs arbitrary: cs)
  case Nil
  then show ?case by simp
next
  case (Cons cv cvs)
  from Cons.prems obtain c cs' where cs: "cs = c # cs'" and l: "load_course h cv = Some c"
    and rest: "those (map (load_course h) cvs) = Some cs'"
    by (auto split: option.splits)
  from load_course_runs [OF l] obtain rvs where
    g: "py_bind (getitem cv ''course_runs'') iterate h = (h, Inr rvs)"
    and t: "those (map (load_run h) rvs) = Some (course_runs c)"
    by blast
  from course_runs_loop_heap_load [OF t, of cid pv cv]
  show ?case
  proof (elim disjE conjE exE)
    assume n: "course_runs_loop cid (course_runs c) = None"
      and nh: "course_runs_loop_heap cid pv cv rvs h = (h, Inr None)"
    with Cons.IH [OF rest] show ?thesis
      by (auto simp: cs g)
  next
    fix rv r
    assume "course_runs_loop cid (course_runs c) = Some r" "load_run h rv = Some r"
      "course_runs_loop_heap cid pv cv rvs h = (h, Inr (Some [pv, rv, cv]))"
    with l show ?thesis
      by (auto simp: cs g)
  qed
qed

lemma load_progress_not_started:
  assumes "load_progress h pv = Some p"
  shows "\<exists>cvs. py_bind (getitem pv ''not_started'') iterate h = (h, Inr cvs)
               \<and> those (map (load_course h) cvs) = Some (not_started p)"
proof -
  from assms obtain kvs nv where d: "dict_of h pv = Some kvs"
    and m: "map_of kvs ''not_started'' = Some nv"
    and l: "load_list load_course h nv = Some (not_started p)"
    by (auto simp: load_progress_def bind_eq_Some_conv)
  from load_list_Some [OF l] obtain cvs where
    i: "iterate nv h = (h, Inr cvs)"
    and t: "those (map (load_course h) cvs) = Some (not_started p)"
    by blast
  have "py_bind (getitem pv ''not_started'') iterate h = (h, Inr cvs)"
    by (simp add: py_bind_def getitem_dict [OF d m] i)
  with t show ?thesis by blast
qed

lemma programs_loop_heap_load:
  "those (map (load_progress h) pvs) = Some ps \<Longrightarrow>
     (programs_loop cid ps = None
        \<and> programs_loop_heap cid pvs h = (h, Inr None))
     \<or> (\<exists>pv rv cv p r c. programs_loop cid ps = Some (p, r, c)
           \<and> load_progress h pv = Some p \<and> load_run h rv = Some r \<and> load_course h cv = Some c
           \<and> programs_loop_heap cid pvs h = (h, Inr (Some [pv, rv, cv])))"
proof (induction pvs arbitrary: ps)
  case Nil
  then show ?case by simp
next
  case (Cons pv pvs)
  from Cons.prems obtain p ps' where ps: "ps = p # ps'" and l: "load_progress h pv = Some p"
    and rest: "those (map (load_progress h) pvs) = Some ps'"
    by (auto split: option.splits)
  from load_progress_not_started [OF l] obtain cvs where
    g: "py_bind (getitem pv ''not_started'') iterate h = (h, Inr cvs)"
    and t: "those (map (load_course h) cvs) = Some (not_started p)"
    by blast
  from not_started_loop_heap_load [OF t, of cid pv]
  show ?case
  proof (elim disjE conjE exE)
    assume n: "not_started_loop cid (not_started p) = None"
      and nh: "not_started_loop_heap cid pv cvs h = (h, Inr None)"
    with Cons.IH [OF rest] show ?thesis
      by (auto simp: ps g)
  next
    fix rv cv r c
    assume "not_started_loop cid (not_started p) = Some (r, c)" "load_run h rv = Some r"
      "load_course h cv = Some c"
      "not_started_loop_heap cid pv cvs h = (h, Inr (Some [pv, rv, cv]))"
    with l show ?thesis
      by (auto simp: ps g)
  qed
qed

lemma get_course_run_to_suggest_heap_load:
  assumes "load_list load_progress h pp = Some ps"
  shows "\<exists>res. get_course_run_to_suggest_heap pp cid h = (h, Inr res)
               \<and> load_result h res = Some (get_course_run_to_suggest ps cid)"
proof -
  from load_list_Some [OF assms] obtain pvs where
    i: "iterate pp h = (h, Inr pvs)"
    and t: "those (map (load_progress h) pvs) = Some ps"
    by blast
  from programs_loop_heap_load [OF t, of cid]
  show ?thesis
  proof (elim disjE conjE exE)
    assume "programs_loop cid ps = None" "programs_loop_heap cid pvs h = (h, Inr None)"
    then show ?thesis
      by (simp add: get_course_run_to_suggest_heap_def py_bind_def
            py_return_def load_result_def get_course_run_to_suggest_def i)
  next
    fix pv rv cv p r c
    assume "programs_loop cid ps = Some (p, r, c)" "load_progress h pv = Some p"
      "load_run h rv = Some r" "load_course h cv = Some c"
      "programs_loop_heap cid pvs h = (h, Inr (Some [pv, rv, cv]))"
    then show ?thesis
      by (simp add: get_course_run_to_suggest_heap_def py_bind_def
            py_return_def load_result_def get_course_run_to_suggest_def i)
  qed
qed

lemma example_heap_suggestion:
  "snd (get_course_run_to_suggest_heap (VRef 12) ''CS101'' example_heap)
     = Inr [VRef 11, VRef 6, VRef 8]"
  by code_simp

lemma example_heap_load:
  "load_list load_progress example_heap (VRef 12)
     = Some [example_progress_pc\<lparr>completed := []\<rparr>, example_progress_xs\<lparr>completed := []\<rparr>]"
  by code_simp

subsection \<open>Nothing to suggest\<close>

text \<open>
  Claim C1. When no course run of any not started course is eligible,
  \<^verbatim>\<open>get_course_run_to_suggest\<close> returns its "nothing found" value, the 2-tuple
  \<^verbatim>\<open>None, None\<close>. The loop of \<^verbatim>\<open>handle\<close> unpacks the result into three names, so on
  that value the iteration raises \<^verbatim>\<open>ValueError\<close>, with and without
  \<^verbatim>\<open>--no-commit\<close>, instead of going on to the next learner.
\<close>

theorem not_found_raises_value_error:
  assumes "\<forall>p\<in>set (meter_progress e u ps). \<forall>c\<in>set (not_started p). \<forall>r\<in>set (course_runs c).
             \<not> eligible cid r"
  shows "get_course_run_to_suggest (meter_progress e u ps) cid = [PNone, PNone]
         \<and> handle_user e should_commit cid ps u w recs = (w, Inl ValueError)"
proof -
  from assms have "programs_loop cid (meter_progress e u ps) = None"
    by (simp add: programs_loop_None eligible_iff)
  then show ?thesis
    by (simp add: handle_user_None get_course_run_to_suggest_def)
qed

theorem not_found_raises_value_error_witness:
  "map not_started
     (meter_progress example_env_all_completed example_user [example_ranked_pc, example_ranked_xs])
     = [[], []]
   \<and> get_course_run_to_suggest
        (meter_progress example_env_all_completed example_user [example_ranked_pc, example_ranked_xs])
        ''CS101'' = [PNone, PNone]
   \<and> handle_user example_env_all_completed True ''CS101'' [example_ranked_pc, example_ranked_xs]
        example_user empty_world [] = (empty_world, Inl ValueError)
   \<and> handle_user example_env_all_completed False ''CS101'' [example_ranked_pc, example_ranked_xs]
        example_user empty_world [] = (empty_world, Inl ValueError)"
proof -
  have h: "\<forall>p\<in>set (meter_progress example_env_all_completed example_user
                      [example_ranked_pc, example_ranked_xs]).
             \<forall>c\<in>set (not_started p). \<forall>r\<in>set (course_runs c). \<not> eligible ''CS101'' r"
    by (simp add: example_all_completed_progress)
  have m: "map not_started
     (meter_progress example_env_all_completed example_user [example_ranked_pc, example_ranked_xs])
     = [[], []]"
    by (simp add: example_all_completed_progress)
  show ?thesis
    using m not_found_raises_value_error [OF h, of True empty_world "[]"]
      not_found_raises_value_error [OF h, of False empty_world "[]"]
    by simp
qed

text \<open>The whole command on a learner who has completed every course of the linked
  programs: the run ends with \<^verbatim>\<open>ValueError\<close> after the first log line.\<close>

lemma handle_all_completed_raises:
  "handle example_env_all_completed no_commit empty_world
     = (\<lparr>tracked = [], logged = [PassingGradesFound 1 ''2024-05-01'' 1 1]\<rparr>, Inl ValueError)"
proof -
  have passed: "get_passed_course_to_users_maps example_env_all_completed empty_world
     = (\<lparr>tracked = [], logged = [PassingGradesFound 1 ''2024-05-01'' 1 1]\<rparr>,
        Inr [(''CS101'', [example_user])])"
    by (simp add: get_passed_course_to_users_maps_def example_env_all_completed_def
          example_env_def example_user_def Let_def empty_world_def)
  have sorted_ex: "snd (sort_programs (get_programs example_env_all_completed ''CS101''))
                = Inr [example_ranked_pc, example_ranked_xs]"
    using example_sorted
    by (simp add: example_env_all_completed_def example_ranked_pc_def example_ranked_xs_def)
  have loop: "programs_loop ''CS101''
                (meter_progress example_env_all_completed example_user
                   [example_ranked_pc, example_ranked_xs]) = None"
    by (simp add: example_all_completed_progress)
  show ?thesis
    by (simp add: handle_def passed handle_course_def sorted_ex handle_user_None [OF loop])
qed

subsection \<open>What the selection returns\<close>

text \<open>
  Claim C2. A course run that \<^verbatim>\<open>get_course_run_to_suggest\<close> returns is enrollable and
  marketable, has a non-empty marketing URL and an image, has the status "published",
  and its key is not the completed course's: the selection never suggests the course
  just completed.
\<close>

theorem suggested_course_run_is_eligible:
  assumes "PCourseRun r \<in> set (get_course_run_to_suggest pp cid)"
  shows "is_enrollable r \<and> is_marketable r
         \<and> (\<exists>u. marketing_url r = Some u \<and> u \<noteq> [])
         \<and> (\<exists>img. run_image r = Some img \<and> img \<noteq> [])
         \<and> status r = ''published''
         \<and> run_key r \<noteq> cid"
proof -
  from assms obtain p c where "programs_loop cid pp = Some (p, r, c)"
    using get_course_run_to_suggest_cases [of pp cid] by auto
  then have "valid_course_run r \<and> run_key r \<noteq> cid"
    by (auto dest: programs_loop_Some)
  then have "eligible cid r"
    by (simp add: eligible_iff)
  then show ?thesis
    by (auto simp: eligible_def split: option.splits)
qed

theorem suggested_course_run_is_eligible_witness:
  "PCourseRun example_run_cs202
     \<in> set (get_course_run_to_suggest [example_progress_pc, example_progress_xs] ''CS101'')
   \<and> is_enrollable example_run_cs202 \<and> is_marketable example_run_cs202
   \<and> (\<exists>u. marketing_url example_run_cs202 = Some u \<and> u \<noteq> [])
   \<and> (\<exists>img. run_image example_run_cs202 = Some img \<and> img \<noteq> [])
   \<and> status example_run_cs202 = ''published''
   \<and> run_key example_run_cs202 \<noteq> ''CS101''"
proof -
  have h: "PCourseRun example_run_cs202
     \<in> set (get_course_run_to_suggest [example_progress_pc, example_progress_xs] ''CS101'')"
    by (simp add: suggest_example)
  show ?thesis
    using h suggested_course_run_is_eligible [OF h] by blast
qed

text \<open>
  Claim C3. The tuple \<^verbatim>\<open>get_course_run_to_suggest\<close> returns is the first eligible
  candidate in program order, then the order of the not started courses, then the order
  of the course runs; and when the first of two programs has no eligible course run and
  the second has one, the result comes from the second program.
\<close>

theorem get_course_run_to_suggest_first_eligible:
  "get_course_run_to_suggest pp cid =
     (case spec_select_next_course pp cid of
        Some (p, c, r) \<Rightarrow> [PProgress p, PCourseRun r, PCourse c]
      | None \<Rightarrow> [PNone, PNone])
   \<and> ((\<forall>c\<in>set (not_started p1). \<forall>r\<in>set (course_runs c). \<not> eligible cid r)
       \<and> (\<exists>c\<in>set (not_started p2). \<exists>r\<in>set (course_runs c). eligible cid r)
       \<longrightarrow> (\<exists>c\<in>set (not_started p2). \<exists>r\<in>set (course_runs c).
              eligible cid r
              \<and> get_course_run_to_suggest [p1, p2] cid = [PProgress p2, PCourseRun r, PCourse c]))"
proof (intro conjI impI)
  show "get_course_run_to_suggest pp cid =
     (case spec_select_next_course pp cid of
        Some (p, c, r) \<Rightarrow> [PProgress p, PCourseRun r, PCourse c]
      | None \<Rightarrow> [PNone, PNone])"
    by (cases "spec_select_next_course pp cid")
       (auto simp: get_course_run_to_suggest_def programs_loop_find)
next
  assume a: "(\<forall>c\<in>set (not_started p1). \<forall>r\<in>set (course_runs c). \<not> eligible cid r)
       \<and> (\<exists>c\<in>set (not_started p2). \<exists>r\<in>set (course_runs c). eligible cid r)"
  then have n1: "not_started_loop cid (not_started p1) = None"
    by (simp add: not_started_loop_None eligible_iff)
  from a have "not_started_loop cid (not_started p2) \<noteq> None"
    by (simp add: not_started_loop_None eligible_iff)
  then obtain r c where s2: "not_started_loop cid (not_started p2) = Some (r, c)"
    by (cases "not_started_loop cid (not_started p2)") auto
  then have "c \<in> set (not_started p2) \<and> r \<in> set (course_runs c) \<and> eligible cid r"
    by (auto simp: eligible_iff dest: not_started_loop_Some)
  moreover have "get_course_run_to_suggest [p1, p2] cid = [PProgress p2, PCourseRun r, PCourse c]"
    by (simp add: get_course_run_to_suggest_def n1 s2)
  ultimately show "\<exists>c\<in>set (not_started p2). \<exists>r\<in>set (course_runs c).
            eligible cid r
            \<and> get_course_run_to_suggest [p1, p2] cid = [PProgress p2, PCourseRun r, PCourse c]"
    by blast
qed

theorem get_course_run_to_suggest_first_eligible_witness:
  "not_started example_progress_pc = [example_course_cs150]
   \<and> course_runs example_course_cs150 = [example_run_cs150]
   \<and> \<not> eligible ''CS101'' example_run_cs150
   \<and> (\<exists>c\<in>set (not_started example_progress_xs). \<exists>r\<in>set (course_runs c). eligible ''CS101'' r)
   \<and> (\<exists>c\<in>set (not_started example_progress_xs). \<exists>r\<in>set (course_runs c).
         eligible ''CS101'' r
         \<and> get_course_run_to_suggest [example_progress_pc, example_progress_xs] ''CS101''
             = [PProgress example_progress_xs, PCourseRun r, PCourse c])"
proof -
  have g1: "not_started example_progress_pc = [example_course_cs150]"
    by (simp add: example_progress_pc_def)
  have g2: "course_runs example_course_cs150 = [example_run_cs150]"
    by (simp add: example_course_cs150_def)
  have g3: "\<not> eligible ''CS101'' example_run_cs150"
    by (simp add: eligible_iff valid_course_run_example_cs150)
  have h1: "\<forall>c\<in>set (not_started example_progress_pc). \<forall>r\<in>set (course_runs c). \<not> eligible ''CS101'' r"
    by (simp add: g1 g2 g3)
  have h2: "\<exists>c\<in>set (not_started example_progress_xs). \<exists>r\<in>set (course_runs c). eligible ''CS101'' r"
    by (simp add: example_progress_xs_def example_course_cs202_def eligible_example_cs202)
  show ?thesis
    using g1 g2 g3 h1 h2
      get_course_run_to_suggest_first_eligible
        [of "[example_progress_pc, example_progress_xs]" "''CS101''"
            example_progress_pc example_progress_xs]
    by blast
qed

text \<open>
  Claim C4. The list \<^verbatim>\<open>sort_programs\<close> returns is sorted by the rank of the program
  type: MicroMasters 1, Professional Program 2, Professional Certificate 3, XSeries 4,
  Masters 5, MicroBachelors 6, and 7 for every other type, which no rank exceeds, so
  that programs of unknown type come last. The programs of one rank keep the order they
  had in the input: the sort is stable. The call never raises.
\<close>

theorem sort_programs_ranked:
  "\<exists>out. snd (sort_programs ps) = Inr out
     \<and> sorted (map (\<lambda>p. revenue_rank (ptype p)) out)
     \<and> (\<forall>k. filter (\<lambda>p. revenue_rank (ptype p) = k) out
              = map set_revenue_order (filter (\<lambda>p. revenue_rank (ptype p) = k) ps))
     \<and> mset out = mset (map set_revenue_order ps)
     \<and> map revenue_rank [''MicroMasters'', ''Professional Program'', ''Professional Certificate'',
                          ''XSeries'', ''Masters'', ''MicroBachelors''] = [1, 2, 3, 4, 5, 6]
     \<and> (\<forall>t. t \<notin> set [''MicroMasters'', ''Professional Program'', ''Professional Certificate'',
                        ''XSeries'', ''Masters'', ''MicroBachelors''] \<longrightarrow> revenue_rank t = 7)
     \<and> (\<forall>t. revenue_rank t \<le> 7)"
proof -
  let ?rk = "\<lambda>p. revenue_rank (ptype p)"
  let ?out = "map set_revenue_order (sort_key ?rk ps)"
  have res: "snd (sort_programs ps) = Inr ?out"
    by (rule sort_programs_result)
  have "map ?rk ?out = map ?rk (sort_key ?rk ps)"
    by (simp add: ptype_set_revenue_order)
  then have srt: "sorted (map ?rk ?out)"
    by (simp only: sorted_sort_key)
  have stable: "filter (\<lambda>p. ?rk p = k) ?out = map set_revenue_order (filter (\<lambda>p. ?rk p = k) ps)" for k
  proof -
    have "filter (\<lambda>p. ?rk p = k) ?out
            = map set_revenue_order (filter (\<lambda>p. ?rk p = k) (sort_key ?rk ps))"
      by (simp add: filter_map comp_def ptype_set_revenue_order)
    then show ?thesis
      by (simp only: sort_key_stable)
  qed
  have perm: "mset ?out = mset (map set_revenue_order ps)"
    by simp
  show ?thesis
  proof (intro exI conjI allI impI)
    show "snd (sort_programs ps) = Inr ?out"
      by (rule res)
    show "sorted (map ?rk ?out)"
      by (rule srt)
    show "filter (\<lambda>p. ?rk p = k) ?out = map set_revenue_order (filter (\<lambda>p. ?rk p = k) ps)" for k
      by (rule stable)
    show "mset ?out = mset (map set_revenue_order ps)"
      by (rule perm)
    show "map revenue_rank [''MicroMasters'', ''Professional Program'', ''Professional Certificate'',
                            ''XSeries'', ''Masters'', ''MicroBachelors''] = [1, 2, 3, 4, 5, 6]"
      by (rule revenue_rank_known)
    show "revenue_rank t = 7"
      if "t \<notin> set [''MicroMasters'', ''Professional Program'', ''Professional Certificate'',
                        ''XSeries'', ''Masters'', ''MicroBachelors'']" for t
      using that by (rule revenue_rank_unknown)
    show "revenue_rank t \<le> 7" for t
      by (rule revenue_rank_le)
  qed
qed

theorem sort_programs_ranked_witness:
  "''Bootcamp'' \<notin> set [''MicroMasters'', ''Professional Program'', ''Professional Certificate'',
                        ''XSeries'', ''Masters'', ''MicroBachelors'']
   \<and> revenue_rank ''Bootcamp'' = 7
   \<and> snd (sort_programs [example_program_bootcamp, example_program_xs, example_program_pc,
                          example_program_xs2])
       = Inr [example_program_pc\<lparr>sort_revenue_order := Some 3\<rparr>,
              example_program_xs\<lparr>sort_revenue_order := Some 4\<rparr>,
              example_program_xs2\<lparr>sort_revenue_order := Some 4\<rparr>,
              example_program_bootcamp\<lparr>sort_revenue_order := Some 7\<rparr>]
   \<and> sorted (map (\<lambda>p. revenue_rank (ptype p))
        [example_program_pc\<lparr>sort_revenue_order := Some 3\<rparr>,
         example_program_xs\<lparr>sort_revenue_order := Some 4\<rparr>,
         example_program_xs2\<lparr>sort_revenue_order := Some 4\<rparr>,
         example_program_bootcamp\<lparr>sort_revenue_order := Some 7\<rparr>])"
proof -
  have h: "''Bootcamp'' \<notin> set [''MicroMasters'', ''Professional Program'',
             ''Professional Certificate'', ''XSeries'', ''Masters'', ''MicroBachelors'']"
    by simp
  obtain out where out:
    "snd (sort_programs [example_program_bootcamp, example_program_xs, example_program_pc,
                         example_program_xs2]) = Inr out"
    "sorted (map (\<lambda>p. revenue_rank (ptype p)) out)"
    and unknown: "\<forall>t. t \<notin> set [''MicroMasters'', ''Professional Program'',
             ''Professional Certificate'', ''XSeries'', ''Masters'', ''MicroBachelors'']
             \<longrightarrow> revenue_rank t = 7"
    using sort_programs_ranked
      [of "[example_program_bootcamp, example_program_xs, example_program_pc, example_program_xs2]"]
    by blast
  from unknown h have r: "revenue_rank ''Bootcamp'' = 7"
    by blast
  from out(1) have e: "out = [example_program_pc\<lparr>sort_revenue_order := Some 3\<rparr>,
              example_program_xs\<lparr>sort_revenue_order := Some 4\<rparr>,
              example_program_xs2\<lparr>sort_revenue_order := Some 4\<rparr>,
              example_program_bootcamp\<lparr>sort_revenue_order := Some 7\<rparr>]"
    by (simp add: sort_programs_example)
  show ?thesis
    using h r out e by simp
qed

subsection \<open>The command with and without \<^verbatim>\<open>--no-commit\<close>\<close>



subsection \<open>The recommended URL\<close>




text \<open>
  Claim C7. The course \<^verbatim>\<open>get_course_run_to_suggest\<close> returns is one of the not started
  courses of the program it returns, and the course run is one of that course's runs.
  The completed and in progress courses are not looked at: two progress lists with the
  same not started courses give the same course run and course, and where no program has
  a not started course nothing is suggested, whatever the other partitions hold.
\<close>

theorem suggestion_from_not_started:
  "(get_course_run_to_suggest pp cid = [PProgress p, PCourseRun r, PCourse c]
      \<longrightarrow> p \<in> set pp \<and> c \<in> set (not_started p) \<and> r \<in> set (course_runs c))
   \<and> (map not_started pp = map not_started pp'
      \<longrightarrow> tl (get_course_run_to_suggest pp cid) = tl (get_course_run_to_suggest pp' cid))
   \<and> ((\<forall>q\<in>set pp. not_started q = []) \<longrightarrow> get_course_run_to_suggest pp cid = [PNone, PNone])"
proof -
  have a: "p \<in> set pp \<and> c \<in> set (not_started p) \<and> r \<in> set (course_runs c)"
    if "get_course_run_to_suggest pp cid = [PProgress p, PCourseRun r, PCourse c]"
  proof -
    from that have "programs_loop cid pp = Some (p, r, c)"
      using get_course_run_to_suggest_cases [of pp cid] by auto
    then show ?thesis
      by (auto dest: programs_loop_Some)
  qed
  have b: "tl (get_course_run_to_suggest pp cid) = tl (get_course_run_to_suggest pp' cid)"
    if "map not_started pp = map not_started pp'"
  proof -
    from that
    have "map_option snd (programs_loop cid pp) = map_option snd (programs_loop cid pp')"
      by (rule programs_loop_not_started_only)
    then show ?thesis
      by (cases "programs_loop cid pp"; cases "programs_loop cid pp'")
         (auto simp: get_course_run_to_suggest_def)
  qed
  have c: "get_course_run_to_suggest pp cid = [PNone, PNone]"
    if "\<forall>q\<in>set pp. not_started q = []"
  proof -
    from that have "programs_loop cid pp = None"
      by (simp add: programs_loop_None)
    then show ?thesis
      by (simp add: get_course_run_to_suggest_def)
  qed
  show ?thesis
    using a b c by blast
qed

text \<open>The witness: the scenario's suggestion comes from the not started courses of the
  XSeries; moving the eligible course \<open>CS202\<close> into the other partitions leaves nothing
  to suggest.\<close>

theorem suggestion_from_not_started_witness:
  "get_course_run_to_suggest [example_progress_pc, example_progress_xs] ''CS101''
     = [PProgress example_progress_xs, PCourseRun example_run_cs202, PCourse example_course_cs202]
   \<and> example_progress_xs \<in> set [example_progress_pc, example_progress_xs]
   \<and> example_course_cs202 \<in> set (not_started example_progress_xs)
   \<and> example_run_cs202 \<in> set (course_runs example_course_cs202)
   \<and> map not_started [example_progress_xs]
       = map not_started [example_progress_xs\<lparr>completed := [], in_progress := [example_course_cs101]\<rparr>]
   \<and> tl (get_course_run_to_suggest [example_progress_xs] ''CS101'')
       = tl (get_course_run_to_suggest
               [example_progress_xs\<lparr>completed := [], in_progress := [example_course_cs101]\<rparr>] ''CS101'')
   \<and> not_started (example_progress_xs\<lparr>in_progress := [example_course_cs202], not_started := []\<rparr>) = []
   \<and> get_course_run_to_suggest
        [example_progress_xs\<lparr>in_progress := [example_course_cs202], not_started := []\<rparr>] ''CS101''
       = [PNone, PNone]"
proof -
  have h1: "get_course_run_to_suggest [example_progress_pc, example_progress_xs] ''CS101''
     = [PProgress example_progress_xs, PCourseRun example_run_cs202, PCourse example_course_cs202]"
    by (rule suggest_example)
  have h2: "map not_started [example_progress_xs]
       = map not_started [example_progress_xs\<lparr>completed := [], in_progress := [example_course_cs101]\<rparr>]"
    by simp
  have example_in_not_started:
    "not_started (example_progress_xs\<lparr>in_progress := [example_course_cs202], not_started := []\<rparr>) = []"
    by simp
  have h3: "\<forall>q\<in>set [example_progress_xs\<lparr>in_progress := [example_course_cs202], not_started := []\<rparr>].
         not_started q = []"
    by simp
  show ?thesis
    using h1 h2 h3 example_in_not_started
      suggestion_from_not_started
        [of "[example_progress_pc, example_progress_xs]" "''CS101''" example_progress_xs
            example_run_cs202 example_course_cs202]
      suggestion_from_not_started
        [of "[example_progress_xs]" "''CS101''" _ _ _
            "[example_progress_xs\<lparr>completed := [], in_progress := [example_course_cs101]\<rparr>]"]
      suggestion_from_not_started
        [of "[example_progress_xs\<lparr>in_progress := [example_course_cs202], not_started := []\<rparr>]"
            "''CS101''"]
    by blast
qed

subsection \<open>The selection only reads\<close>

text \<open>
  Claim C8. On the store of objects, \<^verbatim>\<open>get_course_run_to_suggest\<close> returns the store
  it was given, whatever its argument refers to and however the call ends: no list and no
  dictionary is changed, the progress list among them (the completed course id is a
  string, which no statement can change). A second call on the same arguments therefore
  returns what the first returned. Where the argument is a well-formed progress list, the
  records read off the store after the call are those read off before, and the tuple
  returned stands for the tuple the selection on the records returns.
\<close>

theorem get_course_run_to_suggest_leaves_its_arguments:
  "fst (get_course_run_to_suggest_heap pp cid h) = h
   \<and> get_course_run_to_suggest_heap pp cid (fst (get_course_run_to_suggest_heap pp cid h))
       = get_course_run_to_suggest_heap pp cid h
   \<and> (load_list load_progress h pp = Some ps
        \<longrightarrow> load_list load_progress (fst (get_course_run_to_suggest_heap pp cid h)) pp = Some ps
            \<and> (\<exists>res. snd (get_course_run_to_suggest_heap pp cid h) = Inr res
                     \<and> load_result h res = Some (get_course_run_to_suggest ps cid)))"
proof -
  have frame: "fst (get_course_run_to_suggest_heap pp cid h) = h"
    using leaves_store_get_course_run_to_suggest [of pp cid]
    by (simp add: leaves_store_def)
  have again: "get_course_run_to_suggest_heap pp cid (fst (get_course_run_to_suggest_heap pp cid h))
                 = get_course_run_to_suggest_heap pp cid h"
    by (simp only: frame)
  have agree: "load_list load_progress (fst (get_course_run_to_suggest_heap pp cid h)) pp = Some ps
            \<and> (\<exists>res. snd (get_course_run_to_suggest_heap pp cid h) = Inr res
                     \<and> load_result h res = Some (get_course_run_to_suggest ps cid))"
    if l: "load_list load_progress h pp = Some ps"
  proof -
    from get_course_run_to_suggest_heap_load [OF l, of cid] obtain res where
      "get_course_run_to_suggest_heap pp cid h = (h, Inr res)"
      and "load_result h res = Some (get_course_run_to_suggest ps cid)"
      by blast
    with l show ?thesis by auto
  qed
  show ?thesis
    using frame again agree by blast
qed

text \<open>The witness: the scenario's progress list laid out in a store of fourteen objects.\<close>

theorem get_course_run_to_suggest_leaves_its_arguments_witness:
  "load_list load_progress example_heap (VRef 12)
     = Some [example_progress_pc\<lparr>completed := []\<rparr>, example_progress_xs\<lparr>completed := []\<rparr>]
   \<and> get_course_run_to_suggest_heap (VRef 12) ''CS101'' example_heap
       = (example_heap, Inr [VRef 11, VRef 6, VRef 8])
   \<and> load_result example_heap [VRef 11, VRef 6, VRef 8]
       = Some (get_course_run_to_suggest
                 [example_progress_pc\<lparr>completed := []\<rparr>, example_progress_xs\<lparr>completed := []\<rparr>]
                 ''CS101'')
   \<and> load_list load_progress
         (fst (get_course_run_to_suggest_heap (VRef 12) ''CS101'' example_heap)) (VRef 12)
       = Some [example_progress_pc\<lparr>completed := []\<rparr>, example_progress_xs\<lparr>completed := []\<rparr>]"
proof -
  let ?ps = "[example_progress_pc\<lparr>completed := []\<rparr>, example_progress_xs\<lparr>completed := []\<rparr>]"
  note l = example_heap_load
  note inst = get_course_run_to_suggest_leaves_its_arguments
                [of "VRef 12" "''CS101''" example_heap ?ps]
  from inst have f: "fst (get_course_run_to_suggest_heap (VRef 12) ''CS101'' example_heap)
                       = example_heap"
    by blast
  with example_heap_suggestion
  have run: "get_course_run_to_suggest_heap (VRef 12) ''CS101'' example_heap
               = (example_heap, Inr [VRef 11, VRef 6, VRef 8])"
    by (simp add: prod_eq_iff)
  from inst l obtain res where
    r: "snd (get_course_run_to_suggest_heap (VRef 12) ''CS101'' example_heap) = Inr res"
    and lr: "load_result example_heap res = Some (get_course_run_to_suggest ?ps ''CS101'')"
    and after: "load_list load_progress
                  (fst (get_course_run_to_suggest_heap (VRef 12) ''CS101'' example_heap)) (VRef 12)
                = Some ?ps"
    by blast
  from r example_heap_suggestion have "res = [VRef 11, VRef 6, VRef 8]"
    by simp
  with lr have res: "load_result example_heap [VRef 11, VRef 6, VRef 8]
                       = Some (get_course_run_to_suggest ?ps ''CS101'')"
    by simp
  show ?thesis
    using l run res after by blast
qed

text \<open>
  Claim C9. \<^verbatim>\<open>sort_programs\<close> writes into the programs of the list it is given: after
  the call every one of them carries \<^verbatim>\<open>sort_revenue_order\<close>, set to the rank of its
  type, whether the key was absent or held another value before. The caller's list is
  changed wherever a program did not carry that value already, and the returned list
  holds the same annotated programs.
\<close>

theorem sort_programs_annotates_input:
  "fst (sort_programs ps) = map (\<lambda>p. p\<lparr>sort_revenue_order := Some (revenue_rank (ptype p))\<rparr>) ps
   \<and> (\<forall>p\<in>set (fst (sort_programs ps)). sort_revenue_order p = Some (revenue_rank (ptype p)))
   \<and> ((\<exists>p\<in>set ps. sort_revenue_order p \<noteq> Some (revenue_rank (ptype p)))
        \<longrightarrow> fst (sort_programs ps) \<noteq> ps)
   \<and> (\<forall>out. snd (sort_programs ps) = Inr out \<longrightarrow> set out = set (fst (sort_programs ps)))"
proof -
  have a: "fst (sort_programs ps)
             = map (\<lambda>p. p\<lparr>sort_revenue_order := Some (revenue_rank (ptype p))\<rparr>) ps"
    by (simp add: sort_programs_def Let_def set_revenue_order_def)
  have b: "\<forall>p\<in>set (fst (sort_programs ps)). sort_revenue_order p = Some (revenue_rank (ptype p))"
    by (auto simp: a)
  have c: "fst (sort_programs ps) \<noteq> ps"
    if "\<exists>p\<in>set ps. sort_revenue_order p \<noteq> Some (revenue_rank (ptype p))"
  proof
    assume "fst (sort_programs ps) = ps"
    then have "set ps = set (fst (sort_programs ps))" by simp
    with b have "\<forall>p\<in>set ps. sort_revenue_order p = Some (revenue_rank (ptype p))"
      by simp
    with that show False by blast
  qed
  have d: "set out = set (fst (sort_programs ps))" if "snd (sort_programs ps) = Inr out" for out
  proof -
    from that have "out = map set_revenue_order (sort_key (\<lambda>p. revenue_rank (ptype p)) ps)"
      by (simp add: sort_programs_result)
    then show ?thesis
      by (simp add: sort_programs_def Let_def)
  qed
  show ?thesis
    using a b c d by blast
qed

theorem sort_programs_annotates_input_witness:
  "sort_revenue_order example_program_xs = None
   \<and> sort_revenue_order example_program_xs2 = Some 99
   \<and> fst (sort_programs [example_program_xs, example_program_xs2])
       = [example_program_xs\<lparr>sort_revenue_order := Some 4\<rparr>,
          example_program_xs2\<lparr>sort_revenue_order := Some 4\<rparr>]
   \<and> fst (sort_programs [example_program_xs, example_program_xs2])
       \<noteq> [example_program_xs, example_program_xs2]
   \<and> snd (sort_programs [example_program_xs, example_program_xs2])
       = Inr (fst (sort_programs [example_program_xs, example_program_xs2]))"
proof -
  have h: "\<exists>p\<in>set [example_program_xs, example_program_xs2].
             sort_revenue_order p \<noteq> Some (revenue_rank (ptype p))"
    by (simp add: example_program_xs_def)
  have r: "revenue_rank (ptype example_program_xs) = 4" "revenue_rank (ptype example_program_xs2) = 4"
    by (simp_all add: example_program_xs_def example_program_xs2_def revenue_rank_def
          sort_revenue_order_table_def)
  have s: "snd (sort_programs [example_program_xs, example_program_xs2])
             = Inr [example_program_xs\<lparr>sort_revenue_order := Some 4\<rparr>,
                    example_program_xs2\<lparr>sort_revenue_order := Some 4\<rparr>]"
    by (simp add: sort_programs_result set_revenue_order_def r)
  show ?thesis
    using h r s sort_programs_annotates_input [of "[example_program_xs, example_program_xs2]"]
    by (simp add: example_program_xs_def example_program_xs2_def)
qed

subsection \<open>The completed course run\<close>

text \<open>
  Claim C10. \<^verbatim>\<open>get_course_run\<close> returns the first course run of the program, in the
  order of its courses and their runs, whose key is the one asked for, and \<^verbatim>\<open>None\<close>
  when no course run has that key. The loop of the command hands the result to
  \<^verbatim>\<open>emit_event\<close> as it is; on \<^verbatim>\<open>None\<close> the event's first property cannot be read
  and \<^verbatim>\<open>emit_event\<close> raises \<^verbatim>\<open>TypeError\<close>.
\<close>

theorem get_course_run_first_match_or_none:
  "get_course_run p k = List.find (\<lambda>r. run_key r = k) (concat (map course_runs (courses p)))
   \<and> ((\<forall>c\<in>set (courses p). \<forall>r\<in>set (course_runs c). run_key r \<noteq> k)
        \<longrightarrow> get_course_run p k = None)
   \<and> (get_course_run_to_suggest (meter_progress e u ps) cid
         = [PProgress spp, PCourseRun sr, PCourse sc]
       \<and> get_program ps spp = Some sp
        \<longrightarrow> handle_user e True cid ps u w recs
            = (case emit_event e u sp sr sc (get_course_run sp cid) w of
                 (w', Inl err) \<Rightarrow> (w', Inl err)
               | (w', Inr x) \<Rightarrow> (w', Inr (recs @ [email_sent_record u cid sr]))))
   \<and> (recommended_course_url e u sr sc = Inr url
        \<longrightarrow> emit_event e u sp sr sc None w = (w, Inl TypeError))"
proof -
  have a: "get_course_run p k
             = List.find (\<lambda>r. run_key r = k) (concat (map course_runs (courses p)))"
    by (simp add: get_course_run_def get_course_run_courses_find)
  have b: "get_course_run p k = None"
    if "\<forall>c\<in>set (courses p). \<forall>r\<in>set (course_runs c). run_key r \<noteq> k"
    using that by (auto simp: a find_None_iff)
  have c: "handle_user e True cid ps u w recs
            = (case emit_event e u sp sr sc (get_course_run sp cid) w of
                 (w', Inl err) \<Rightarrow> (w', Inl err)
               | (w', Inr x) \<Rightarrow> (w', Inr (recs @ [email_sent_record u cid sr])))"
    if "get_course_run_to_suggest (meter_progress e u ps) cid
          = [PProgress spp, PCourseRun sr, PCourse sc] \<and> get_program ps spp = Some sp"
  proof -
    from that have "programs_loop cid (meter_progress e u ps) = Some (spp, sr, sc)"
      using get_course_run_to_suggest_cases [of "meter_progress e u ps" cid] by auto
    with that show ?thesis
      by (simp add: handle_user_Some)
  qed
  have d: "emit_event e u sp sr sc None w = (w, Inl TypeError)"
    if "recommended_course_url e u sr sc = Inr url"
    using that by (simp add: emit_event_def)
  show ?thesis
    using a b c d by blast
qed

theorem get_course_run_first_match_or_none_witness:
  "get_course_run example_ranked_xs ''CS101'' = Some example_run_cs101
   \<and> courses example_program_xs_without_cs101 = [example_course_cs202]
   \<and> course_runs example_course_cs202 = [example_run_cs202]
   \<and> run_key example_run_cs202 \<noteq> ''CS101''
   \<and> get_course_run example_program_xs_without_cs101 ''CS101'' = None
   \<and> get_course_run_to_suggest
        (meter_progress example_env example_user
           [example_ranked_pc, example_program_xs_without_cs101]) ''CS101''
       = [PProgress example_progress_xs, PCourseRun example_run_cs202, PCourse example_course_cs202]
   \<and> get_program [example_ranked_pc, example_program_xs_without_cs101] example_progress_xs
       = Some example_program_xs_without_cs101
   \<and> handle_user example_env True ''CS101''
        [example_ranked_pc, example_program_xs_without_cs101] example_user empty_world []
       = (empty_world, Inl TypeError)"
proof -
  let ?ps = "[example_ranked_pc, example_program_xs_without_cs101]"
  have g1: "get_course_run example_ranked_xs ''CS101'' = Some example_run_cs101"
    by (simp only: example_ranked_xs_def example_get_course_run)
  have g2: "courses example_program_xs_without_cs101 = [example_course_cs202]"
    by (simp add: example_program_xs_without_cs101_def)
  have g3: "course_runs example_course_cs202 = [example_run_cs202]"
    by (simp add: example_course_cs202_def)
  have g4: "run_key example_run_cs202 \<noteq> ''CS101''"
    by (simp add: example_run_cs202_def)
  have h: "\<forall>c\<in>set (courses example_program_xs_without_cs101). \<forall>r\<in>set (course_runs c).
             run_key r \<noteq> ''CS101''"
    by (simp add: g2 g3 g4)
  have mp: "meter_progress example_env example_user ?ps
              = [example_progress_pc, example_progress_xs]"
    by (simp add: example_env_def example_progress_of_def example_ranked_pc_def
          example_program_pc_def example_program_xs_without_cs101_def example_ranked_xs_def
          example_program_xs_def)
  have s: "get_course_run_to_suggest (meter_progress example_env example_user ?ps) ''CS101''
       = [PProgress example_progress_xs, PCourseRun example_run_cs202, PCourse example_course_cs202]"
    by (simp only: mp suggest_example)
  have gp: "get_program ?ps example_progress_xs = Some example_program_xs_without_cs101"
    by (simp add: example_ranked_pc_def example_program_pc_def
          example_program_xs_without_cs101_def example_ranked_xs_def example_program_xs_def
          example_progress_xs_def)
  note inst = get_course_run_first_match_or_none
        [of example_program_xs_without_cs101 "''CS101''" example_env example_user ?ps "''CS101''"
            example_progress_xs example_run_cs202 example_course_cs202
            example_program_xs_without_cs101 empty_world "[]"
            "Some ''https://www.edx.org/course/cs202''"]
  from inst h have none: "get_course_run example_program_xs_without_cs101 ''CS101'' = None"
    by blast
  from inst example_recommended_url [of example_user]
  have te: "emit_event example_env example_user example_program_xs_without_cs101
              example_run_cs202 example_course_cs202 None empty_world
            = (empty_world, Inl TypeError)"
    by blast
  from inst s gp
  have "handle_user example_env True ''CS101'' ?ps example_user empty_world []
          = (case emit_event example_env example_user example_program_xs_without_cs101
                    example_run_cs202 example_course_cs202
                    (get_course_run example_program_xs_without_cs101 ''CS101'') empty_world of
               (w', Inl err) \<Rightarrow> (w', Inl err)
             | (w', Inr x) \<Rightarrow>
                 (w', Inr ([] @ [email_sent_record example_user ''CS101'' example_run_cs202])))"
    by blast
  then have hu: "handle_user example_env True ''CS101'' ?ps example_user empty_world []
          = (empty_world, Inl TypeError)"
    by (simp only: none te prod.case sum.case)
  show ?thesis
    using g1 g2 g3 g4 none s gp hu by blast
qed

end
